theory Spec2Isabelle
  imports Main "HOL-Library.Multiset"
begin

section \<open>JavaScript primitives used by the connector\<close>

text \<open>
  Exceptions are values. \<open>SyntaxError\<close> is what \<^verbatim>\<open>BigInt(s)\<close> throws on a string that is no
  integer literal; \<open>AxiosError\<close> and \<open>OtherError\<close> are the two kinds of rejection an HTTP call
  can produce, \<open>InternalServerErrorException\<close> is what \<^verbatim>\<open>wrapError\<close> turns the first into;
  \<open>InvalidArgument\<close> and \<open>MalformedIdentifier\<close> are the failures of the identifier codec.
\<close>

datatype error =
    SyntaxError
  | TypeError
  | AxiosError string
  | OtherError string
  | InternalServerErrorException string
  | InvalidArgument
  | MalformedIdentifier

text \<open>A value of a JSON reply, as far as the connector inspects it.\<close>

datatype js_value = JUndefined | JBool bool | JStr string

subsection \<open>Strings\<close>

definition digit_char :: "nat \<Rightarrow> char" where
  "digit_char d = char_of (48 + d)"

text \<open>\<^verbatim>\<open>n.toString(10)\<close> of a non-negative integer.\<close>

fun toString10 :: "nat \<Rightarrow> string" where
  "toString10 n =
     (if n < 10 then [digit_char n] else toString10 (n div 10) @ [digit_char (n mod 10)])"

declare toString10.simps [simp del]

text \<open>\<^verbatim>\<open>b.toString(10)\<close> of a BigInt.\<close>

definition bigint_toString :: "int \<Rightarrow> string" where
  "bigint_toString i = (if i < 0 then CHR ''-'' # toString10 (nat (- i)) else toString10 (nat i))"

text \<open>\<^verbatim>\<open>s.padStart(n, c)\<close> with a one-character filler: a longer string is returned as it is.\<close>

definition padStart :: "nat \<Rightarrow> char \<Rightarrow> string \<Rightarrow> string" where
  "padStart n c s = replicate (n - length s) c @ s"

text \<open>\<^verbatim>\<open>parts.join(sep)\<close>.\<close>

fun join :: "string \<Rightarrow> string list \<Rightarrow> string" where
  "join sep [] = []"
| "join sep [x] = x"
| "join sep (x # y # ys) = x @ sep @ join sep (y # ys)"

text \<open>\<^verbatim>\<open>s.indexOf(c)\<close> for a one-character needle: \<open>None\<close> stands for \<open>-1\<close>.\<close>

fun indexOf :: "string \<Rightarrow> char \<Rightarrow> nat option" where
  "indexOf [] c = None"
| "indexOf (x # xs) c = (if x = c then Some 0 else map_option Suc (indexOf xs c))"

text \<open>
  \<^verbatim>\<open>hay.includes(needle)\<close>, and \<^verbatim>\<open>hay.replace(needle, rep)\<close> with a string pattern: the
  first occurrence only, the replacement taken as it is (the code replaces by the
  hexadecimal form of a token id, which holds no \<^verbatim>\<open>$\<close>).
\<close>

fun str_includes :: "string \<Rightarrow> string \<Rightarrow> bool" where
  "str_includes [] needle = (needle = [])"
| "str_includes (x # xs) needle =
     (take (length needle) (x # xs) = needle \<or> str_includes xs needle)"

fun replace_first :: "string \<Rightarrow> string \<Rightarrow> string \<Rightarrow> string" where
  "replace_first [] needle rep = (if needle = [] then rep else [])"
| "replace_first (x # xs) needle rep =
     (if take (length needle) (x # xs) = needle then rep @ drop (length needle) (x # xs)
      else x # replace_first xs needle rep)"

text \<open>\<^verbatim>\<open>s.toLowerCase()\<close> on ASCII letters.\<close>

definition lower_char :: "char \<Rightarrow> char" where
  "lower_char c =
     (let n = (of_char c :: nat) in if 65 \<le> n \<and> n \<le> 90 then char_of (n + 32) else c)"

definition toLowerCase :: "string \<Rightarrow> string" where
  "toLowerCase s = map lower_char s"

text \<open>
  The comparison \<^verbatim>\<open>a < b\<close> of two strings: lexicographic on the character codes, a
  proper prefix first.
\<close>

fun str_less :: "string \<Rightarrow> string \<Rightarrow> bool" where
  "str_less [] [] = False"
| "str_less [] (y # ys) = True"
| "str_less (x # xs) [] = False"
| "str_less (x # xs) (y # ys) =
     ((of_char x :: nat) < of_char y \<or> (x = y \<and> str_less xs ys))"

subsection \<open>\<^verbatim>\<open>BigInt(string)\<close>\<close>

text \<open>
  The argument is trimmed of white space; the empty string is zero; a decimal literal may
  carry a sign; \<^verbatim>\<open>0x\<close>, \<^verbatim>\<open>0o\<close> and \<^verbatim>\<open>0b\<close> literals carry none; anything else is a
  \<open>SyntaxError\<close>. White space is the ASCII part of the language's (tab, line feed, vertical
  tab, form feed, carriage return, space).
\<close>

definition isWhiteSpace :: "char \<Rightarrow> bool" where
  "isWhiteSpace c = ((of_char c :: nat) \<in> {9, 10, 11, 12, 13, 32})"

definition trimWS :: "string \<Rightarrow> string" where
  "trimWS s = rev (dropWhile isWhiteSpace (rev (dropWhile isWhiteSpace s)))"

definition digit_value :: "char \<Rightarrow> nat option" where
  "digit_value c =
     (let n = (of_char c :: nat) in
      if 48 \<le> n \<and> n \<le> 57 then Some (n - 48)
      else if 97 \<le> n \<and> n \<le> 122 then Some (n - 87)
      else if 65 \<le> n \<and> n \<le> 90 then Some (n - 55)
      else None)"

fun parse_digits_from :: "nat \<Rightarrow> nat \<Rightarrow> string \<Rightarrow> nat option" where
  "parse_digits_from b acc [] = Some acc"
| "parse_digits_from b acc (c # cs) =
     (case digit_value c of
        None \<Rightarrow> None
      | Some d \<Rightarrow> if d < b then parse_digits_from b (acc * b + d) cs else None)"

definition parse_digits :: "nat \<Rightarrow> string \<Rightarrow> nat option" where
  "parse_digits b s = (if s = [] then None else parse_digits_from b 0 s)"

definition StringToBigInt :: "string \<Rightarrow> int option" where
  "StringToBigInt str =
     (let t = trimWS str in
      if t = [] then Some 0
      else if take 2 t = ''0x'' \<or> take 2 t = ''0X'' then map_option int (parse_digits 16 (drop 2 t))
      else if take 2 t = ''0o'' \<or> take 2 t = ''0O'' then map_option int (parse_digits 8 (drop 2 t))
      else if take 2 t = ''0b'' \<or> take 2 t = ''0B'' then map_option int (parse_digits 2 (drop 2 t))
      else if hd t = CHR ''+'' then map_option int (parse_digits 10 (tl t))
      else if hd t = CHR ''-'' then map_option (\<lambda>n. - int n) (parse_digits 10 (tl t))
      else map_option int (parse_digits 10 t))"

definition BigInt :: "string \<Rightarrow> error + int" where
  "BigInt s = (case StringToBigInt s of None \<Rightarrow> Inl SyntaxError | Some i \<Rightarrow> Inr i)"

section \<open>Events delivered by the event stream\<close>

text \<open>
  The interface \<^verbatim>\<open>Event\<close>; \<open>'d\<close> is the type of the decoded log (\<^verbatim>\<open>event.data\<close>).
  \<open>ev_blockNumber\<close> and \<open>ev_logIndex\<close> may be absent (the code reads them with
  \<^verbatim>\<open>?? '0'\<close>); \<open>ev_inputArgs\<close> is \<^verbatim>\<open>event.inputArgs\<close>, whose \<^verbatim>\<open>data\<close> may be absent too.
\<close>

record 'd Event =
  ev_signature :: string
  ev_address :: string
  ev_blockNumber :: "string option"
  ev_transactionIndex :: string
  ev_transactionHash :: string
  ev_logIndex :: "string option"
  ev_timestamp :: string
  ev_data :: 'd
  ev_inputArgs :: "string option option"

section \<open>The provenance id\<close>

definition formatBlockchainEventId :: "'d Event \<Rightarrow> error + string" where
  "formatBlockchainEventId event =
     (let blockNumber = (case ev_blockNumber event of None \<Rightarrow> ''0'' | Some b \<Rightarrow> b) in
      case BigInt (ev_transactionIndex event) of
        Inl e \<Rightarrow> Inl e
      | Inr n \<Rightarrow>
          let txIndex = bigint_toString n;
              logIndex = (case ev_logIndex event of None \<Rightarrow> ''0'' | Some l \<Rightarrow> l)
          in Inr (join ''/''
                    [padStart 12 CHR ''0'' blockNumber,
                     padStart 6 CHR ''0'' txIndex,
                     padStart 6 CHR ''0'' logIndex]))"

section \<open>The identifier codec\<close>

text \<open>
  The module \<^verbatim>\<open>tokens.util\<close> is not among the sources, so its functions are fields of
  the environment below. Their types follow the way the service calls them and the
  contracts the specification gives: the token-id functions are strict (they may raise),
  the subscription-name decoder is lenient (it returns absent fields), the others are total.
\<close>

record UnpackedTokenId =
  ut_isFungible :: bool
  ut_poolId :: string
  ut_tokenIndex :: "string option"

record PoolLocator =
  pl_poolId :: string
  pl_blockNumber :: "string option"

record UnpackedSubscriptionName =
  us_instancePath :: "string option"
  us_poolLocator :: "string option"
  us_event :: "string option"
  us_poolData :: "string option"

record codec =
  unpackTokenId :: "string \<Rightarrow> error + UnpackedTokenId"
  packTokenId :: "string \<Rightarrow> string option \<Rightarrow> error + string"
  packPoolLocator :: "string \<Rightarrow> string option \<Rightarrow> string"
  unpackPoolLocator :: "string \<Rightarrow> PoolLocator"
  packSubscriptionName :: "string option \<Rightarrow> string \<Rightarrow> string \<Rightarrow> string option \<Rightarrow> string"
  unpackSubscriptionName :: "string \<Rightarrow> UnpackedSubscriptionName"
  packStreamName :: "string \<Rightarrow> string \<Rightarrow> string"
  decodeHex :: "string \<Rightarrow> string"
  encodeHexIDForURI :: "string \<Rightarrow> string"

section \<open>The outside world\<close>

text \<open>An entry of the contract ABI (\<^verbatim>\<open>ERC1155MixedFungible.json\<close>, not among the sources).\<close>

record IAbiMethod =
  abi_name :: "string option"
  abi_type :: string

record EventStream =
  es_id :: string
  es_name :: string

record Subscription =
  sub_name :: string
  sub_stream :: string

text \<open>The arguments of \<^verbatim>\<open>eventstream.getOrCreateSubscription\<close>, in their order.\<close>

record SubscriptionRequest =
  sr_baseUrl :: string
  sr_eventAbi :: IAbiMethod
  sr_streamId :: string
  sr_event :: string
  sr_name :: string
  sr_contractAddress :: string
  sr_methods :: "IAbiMethod list"
  sr_fromBlock :: string

text \<open>
  Every call the service makes to a collaborator is recorded, in order. \<open>QueryCall\<close> is an
  invocation of \<^verbatim>\<open>TokensService.query\<close> (the read-only contract query capability); the two
  \<open>Http\<close> calls are the requests it sends; the last four are the operations of the
  event-stream directory.
\<close>

datatype call =
    QueryCall "IAbiMethod option" "string list"
  | HttpGetContractInfo string
  | HttpPostQuery string string "IAbiMethod option" "string list"
  | GetStreams
  | GetSubscriptions
  | CreateOrUpdateStream string string
  | GetOrCreateSubscription SubscriptionRequest

text \<open>
  The environment: the codec, the ABI, and the reply of each collaborator as a function of
  the calls made so far (the call being answered is the last of them), so that a reply may
  differ from one call to the next.
\<close>

record env = codec +
  abi :: "IAbiMethod list"
  http_getContractInfo :: "call list \<Rightarrow> error + string"
  http_postQuery :: "call list \<Rightarrow> error + js_value"
  es_getStreams :: "call list \<Rightarrow> error + EventStream list"
  es_getSubscriptions :: "call list \<Rightarrow> error + Subscription list"
  es_createOrUpdateStream :: "call list \<Rightarrow> error + EventStream"
  es_getOrCreateSubscription :: "call list \<Rightarrow> error + Subscription"

section \<open>The service\<close>

text \<open>
  The fields of \<^verbatim>\<open>TokensService\<close> the modelled methods read or write, and \<open>calls\<close>, the
  calls issued so far. \<open>supportsCustomUri = None\<close> is the field before its first
  assignment; \<open>contractAddress = []\<close> is the address not configured.
\<close>

record TokensService =
  baseUrl :: string
  instancePath :: string
  instanceUrl :: string
  topic :: string
  contractAddress :: string
  supportsCustomUri :: "bool option"
  stream :: "EventStream option"
  calls :: "call list"

definition TOKEN_STANDARD :: string where "TOKEN_STANDARD = ''ERC1155''"
definition ZERO_ADDRESS :: string where
  "ZERO_ADDRESS = ''0x0000000000000000000000000000000000000000''"
definition BASE_SUBSCRIPTION_NAME :: string where "BASE_SUBSCRIPTION_NAME = ''base''"
definition CUSTOM_URI_IID :: string where "CUSTOM_URI_IID = ''0xa1d87d57''"
definition tokenCreateFunctionName :: string where "tokenCreateFunctionName = ''create''"
definition tokenCreateEvent :: string where "tokenCreateEvent = ''TokenPoolCreation''"
definition transferSingleEvent :: string where "transferSingleEvent = ''TransferSingle''"
definition transferBatchEvent :: string where "transferBatchEvent = ''TransferBatch''"
definition approvalForAllEvent :: string where "approvalForAllEvent = ''ApprovalForAll''"

definition ALL_SUBSCRIBED_EVENTS :: "string list" where
  "ALL_SUBSCRIBED_EVENTS =
     [tokenCreateEvent, transferSingleEvent, transferBatchEvent, approvalForAllEvent]"

definition issue :: "call \<Rightarrow> TokensService \<Rightarrow> TokensService" where
  "issue c s = s\<lparr>calls := calls s @ [c]\<rparr>"

text \<open>\<^verbatim>\<open>ERC1155MixedFungibleAbi.find(m => m.name === n)\<close>.\<close>

definition find_abi :: "'a env_scheme \<Rightarrow> string \<Rightarrow> IAbiMethod option" where
  "find_abi env n = find (\<lambda>m. abi_name m = Some n) (abi env)"

definition wrapError :: "error + 'a \<Rightarrow> error + 'a" where
  "wrapError response =
     (case response of
        Inl (AxiosError errorMessage) \<Rightarrow> Inl (InternalServerErrorException errorMessage)
      | _ \<Rightarrow> response)"

definition getContractAddress ::
  "'a env_scheme \<Rightarrow> TokensService \<Rightarrow> (error + string) \<times> TokensService" where
  "getContractAddress env s =
     (if contractAddress s = [] then
        let s1 = issue (HttpGetContractInfo (instanceUrl s)) s in
        case wrapError (http_getContractInfo env (calls s1)) of
          Inl e \<Rightarrow> (Inl e, s1)
        | Inr address \<Rightarrow>
            let a = ''0x'' @ toLowerCase address in (Inr a, s1\<lparr>contractAddress := a\<rparr>)
      else (Inr (contractAddress s), s))"

definition query ::
  "'a env_scheme \<Rightarrow> IAbiMethod option \<Rightarrow> string list \<Rightarrow> TokensService
     \<Rightarrow> (error + js_value) \<times> TokensService" where
  "query env method params s =
     (case getContractAddress env (issue (QueryCall method params) s) of
        (Inl e, s1) \<Rightarrow> (Inl e, s1)
      | (Inr to, s1) \<Rightarrow>
          let s2 = issue (HttpPostQuery (baseUrl s1) to method params) s1
          in (wrapError (http_postQuery env (calls s2)), s2))"

definition isCustomUriSupported ::
  "'a env_scheme \<Rightarrow> TokensService \<Rightarrow> bool \<times> TokensService" where
  "isCustomUriSupported env s =
     (case supportsCustomUri s of
        Some b \<Rightarrow> (b, s)
      | None \<Rightarrow>
          (case query env (find_abi env ''supportsInterface'') [CUSTOM_URI_IID] s of
             (Inr output, s1) \<Rightarrow>
               (output = JBool True, s1\<lparr>supportsCustomUri := Some (output = JBool True)\<rparr>)
           | (Inl err, s1) \<Rightarrow> (False, s1\<lparr>supportsCustomUri := Some False\<rparr>)))"

definition queryBaseUri ::
  "'a env_scheme \<Rightarrow> TokensService \<Rightarrow> js_value \<times> TokensService" where
  "queryBaseUri env s =
     (case query env (find_abi env ''baseTokenUri'') [CUSTOM_URI_IID] s of
        (Inr output, s1) \<Rightarrow> (output, s1)
      | (Inl err, s1) \<Rightarrow> (JStr [], s1))"

record TokenBalanceQuery =
  bq_poolLocator :: string
  bq_tokenIndex :: "string option"
  bq_account :: string

definition balance ::
  "'a env_scheme \<Rightarrow> TokenBalanceQuery \<Rightarrow> TokensService \<Rightarrow> (error + js_value) \<times> TokensService" where
  "balance env dto s =
     (let poolLocator = unpackPoolLocator env (bq_poolLocator dto) in
      case packTokenId env (pl_poolId poolLocator) (bq_tokenIndex dto) of
        Inl e \<Rightarrow> (Inl e, s)
      | Inr tokenId \<Rightarrow> query env (find_abi env ''balanceOf'') [bq_account dto, tokenId] s)"

subsection \<open>The migration check\<close>

text \<open>
  \<^verbatim>\<open>foundEvents\<close> is a \<^verbatim>\<open>Map<string, string[]>\<close> in insertion order: an association
  list. \<open>record_event\<close> is the \<^verbatim>\<open>get\<close> followed by \<^verbatim>\<open>push\<close> or \<^verbatim>\<open>set\<close>.
\<close>

fun record_event ::
  "(string \<times> string list) list \<Rightarrow> string \<Rightarrow> string \<Rightarrow> (string \<times> string list) list" where
  "record_event [] key event = [(key, [event])]"
| "record_event ((k, existing) # rest) key event =
     (if k = key then (k, existing @ [event]) # rest
      else (k, existing) # record_event rest key event)"

text \<open>The first loop; \<open>None\<close> is its \<^verbatim>\<open>return true\<close> on a name that does not parse.\<close>

fun collect_events ::
  "'a env_scheme \<Rightarrow> string \<Rightarrow> Subscription list \<Rightarrow> (string \<times> string list) list
     \<Rightarrow> (string \<times> string list) list option" where
  "collect_events env baseSubscription [] foundEvents = Some foundEvents"
| "collect_events env baseSubscription (sub # subs) foundEvents =
     (if sub_name sub = baseSubscription then collect_events env baseSubscription subs foundEvents
      else
        let parts = unpackSubscriptionName env (sub_name sub) in
        case (us_poolLocator parts, us_event parts) of
          (Some poolLocator, Some event) \<Rightarrow>
            collect_events env baseSubscription subs
              (record_event foundEvents
                 (packSubscriptionName env (us_instancePath parts) poolLocator [] (us_poolData parts))
                 event)
        | _ \<Rightarrow> None)"

text \<open>The condition of the second loop, and the loop: \<open>True\<close> is its \<^verbatim>\<open>return true\<close>.\<close>

definition events_mismatch :: "string list \<Rightarrow> bool" where
  "events_mismatch events =
     (length ALL_SUBSCRIBED_EVENTS \<noteq> length events
      \<or> \<not> list_all (\<lambda>event. List.member events event) ALL_SUBSCRIBED_EVENTS)"

fun check_events :: "(string \<times> string list) list \<Rightarrow> bool" where
  "check_events [] = False"
| "check_events ((key, events) # rest) =
     (if events_mismatch events then True else check_events rest)"

definition migrationCheck ::
  "'a env_scheme \<Rightarrow> TokensService \<Rightarrow> (error + bool) \<times> TokensService" where
  "migrationCheck env s =
     (let name = packStreamName env (topic s) (instancePath s);
          s1 = issue GetStreams s
      in (case es_getStreams env (calls s1) of
            Inl e \<Rightarrow> (Inl e, s1)
          | Inr streams \<Rightarrow>
              (case (case find (\<lambda>st. es_name st = name) streams of
                       None \<Rightarrow> find (\<lambda>st. es_name st = topic s) streams
                     | Some st \<Rightarrow> Some st) of
                 None \<Rightarrow> (Inr False, s1)
               | Some existingStream \<Rightarrow>
                   (let s2 = s1\<lparr>stream := Some existingStream\<rparr>;
                        streamId = es_id existingStream;
                        s3 = issue GetSubscriptions s2
                    in (case es_getSubscriptions env (calls s3) of
                          Inl e \<Rightarrow> (Inl e, s3)
                        | Inr allSubscriptions \<Rightarrow>
                            (let subscriptions =
                                   filter (\<lambda>sb. sub_stream sb = streamId) allSubscriptions
                             in if length subscriptions = 0 then (Inr False, s3)
                                else
                                  (let baseSubscription =
                                         packSubscriptionName env (Some (instancePath s))
                                           BASE_SUBSCRIPTION_NAME tokenCreateEvent None
                                   in (case collect_events env baseSubscription subscriptions [] of
                                         None \<Rightarrow> (Inr True, s3)
                                       | Some foundEvents \<Rightarrow>
                                           (Inr (check_events foundEvents), s3)))))))))"

definition getStream ::
  "'a env_scheme \<Rightarrow> TokensService \<Rightarrow> (error + EventStream) \<times> TokensService" where
  "getStream env s =
     (case stream s of
        Some st \<Rightarrow> (Inr st, s)
      | None \<Rightarrow>
          (case migrationCheck env s of
             (Inl e, s1) \<Rightarrow> (Inl e, s1)
           | (Inr attention, s1) \<Rightarrow>
               (let name = (case stream s1 of
                              Some st \<Rightarrow> es_name st
                            | None \<Rightarrow> packStreamName env (topic s1) (instancePath s1));
                    s2 = issue (CreateOrUpdateStream name name) s1
                in (case es_createOrUpdateStream env (calls s2) of
                      Inl e \<Rightarrow> (Inl e, s2)
                    | Inr st \<Rightarrow> (Inr st, s2\<lparr>stream := Some st\<rparr>)))))"

subsection \<open>Pool activation\<close>

record TokenPoolActivate =
  pa_poolLocator :: string
  pa_poolData :: "string option"

text \<open>
  The elements of the array given to \<^verbatim>\<open>Promise.all\<close> are evaluated in order, so the four
  calls are issued in the order of the array, each before any of them is awaited.
  \<open>promise_all\<close> is the outcome: the values, or a rejection when one of them rejects (the
  first in the array here; which one wins when several reject depends on timing, which is
  not modelled).
\<close>

fun subscribe_all ::
  "'a env_scheme \<Rightarrow> SubscriptionRequest list \<Rightarrow> TokensService
     \<Rightarrow> (error + Subscription) list \<times> TokensService" where
  "subscribe_all env [] s = ([], s)"
| "subscribe_all env (r # rs) s =
     (let s1 = issue (GetOrCreateSubscription r) s;
          reply = es_getOrCreateSubscription env (calls s1);
          (replies, s2) = subscribe_all env rs s1
      in (reply # replies, s2))"

fun promise_all :: "(error + 'b) list \<Rightarrow> error + 'b list" where
  "promise_all [] = Inr []"
| "promise_all (Inl e # rs) = Inl e"
| "promise_all (Inr v # rs) = (case promise_all rs of Inl e \<Rightarrow> Inl e | Inr vs \<Rightarrow> Inr (v # vs))"

definition name_includes :: "string \<Rightarrow> IAbiMethod \<Rightarrow> bool" where
  "name_includes w m =
     (case abi_name m of None \<Rightarrow> False | Some n \<Rightarrow> str_includes (toLowerCase n) w)"

definition activatePool ::
  "'a env_scheme \<Rightarrow> TokenPoolActivate \<Rightarrow> TokensService \<Rightarrow> (error + unit) \<times> TokensService" where
  "activatePool env dto s =
     (case getStream env s of
        (Inl e, s1) \<Rightarrow> (Inl e, s1)
      | (Inr strm, s1) \<Rightarrow>
          (let poolLocator = unpackPoolLocator env (pa_poolLocator dto);
               transferFunctionABIs =
                 filter (\<lambda>m. name_includes ''mint'' m \<or> name_includes ''transfer'' m
                              \<or> name_includes ''burn'' m) (abi env);
               approvalFunctionABIs = filter (name_includes ''approval'') (abi env);
               fromBlock = (case pl_blockNumber poolLocator of None \<Rightarrow> ''0'' | Some b \<Rightarrow> b)
           in (case (find_abi env tokenCreateEvent, find_abi env tokenCreateFunctionName,
                     find_abi env transferSingleEvent, find_abi env transferBatchEvent,
                     find_abi env approvalForAllEvent) of
                 (Some tokenCreateEventABI, Some tokenCreateFunctionABI,
                  Some transferSingleEventABI, Some transferBatchEventABI,
                  Some approvalForAllEventABI) \<Rightarrow>
                   (case getContractAddress env s1 of
                      (Inl e, s2) \<Rightarrow> (Inl e, s2)
                    | (Inr address, s2) \<Rightarrow>
                        (let subName = (\<lambda>event. packSubscriptionName env (Some (instancePath s2))
                                                  (pa_poolLocator dto) event (pa_poolData dto));
                             (replies, s3) = subscribe_all env
                               [\<lparr>sr_baseUrl = baseUrl s2, sr_eventAbi = tokenCreateEventABI,
                                 sr_streamId = es_id strm, sr_event = tokenCreateEvent,
                                 sr_name = subName tokenCreateEvent,
                                 sr_contractAddress = address,
                                 sr_methods = [tokenCreateFunctionABI],
                                 sr_fromBlock = fromBlock\<rparr>,
                                \<lparr>sr_baseUrl = baseUrl s2, sr_eventAbi = transferSingleEventABI,
                                 sr_streamId = es_id strm, sr_event = transferSingleEvent,
                                 sr_name = subName transferSingleEvent,
                                 sr_contractAddress = address,
                                 sr_methods = transferFunctionABIs,
                                 sr_fromBlock = fromBlock\<rparr>,
                                \<lparr>sr_baseUrl = baseUrl s2, sr_eventAbi = transferBatchEventABI,
                                 sr_streamId = es_id strm, sr_event = transferBatchEvent,
                                 sr_name = subName transferBatchEvent,
                                 sr_contractAddress = address,
                                 sr_methods = transferFunctionABIs,
                                 sr_fromBlock = fromBlock\<rparr>,
                                \<lparr>sr_baseUrl = baseUrl s2, sr_eventAbi = approvalForAllEventABI,
                                 sr_streamId = es_id strm, sr_event = approvalForAllEvent,
                                 sr_name = subName approvalForAllEvent,
                                 sr_contractAddress = address,
                                 sr_methods = approvalFunctionABIs,
                                 sr_fromBlock = ''0''\<rparr>] s2
                         in (case promise_all replies of
                               Inl e \<Rightarrow> (Inl e, s3)
                             | Inr subs \<Rightarrow> (Inr (), s3))))
               | _ \<Rightarrow> (Inr (), s1))))"

section \<open>The listener\<close>

subsection \<open>Decoded logs and emitted messages\<close>

record CreationData =
  cd_operator :: string
  cd_type_id :: string
  cd_data :: "string option"

text \<open>
  \<open>td_value\<close> is optional because the batch path reads \<^verbatim>\<open>values[i]\<close>, which is
  \<^verbatim>\<open>undefined\<close> past the end of \<^verbatim>\<open>values\<close>.
\<close>

record TransferData =
  td_from :: string
  td_to :: string
  td_operator :: string
  td_id :: string
  td_value :: "string option"

record BatchData =
  bd_from :: string
  bd_to :: string
  bd_operator :: string
  bd_ids :: "string list"
  bd_values :: "string list"

record ApprovalData =
  ad_account :: string
  ad_operator :: string
  ad_approved :: bool

record BlockchainInfo =
  bi_blockNumber :: "string option"
  bi_transactionIndex :: string
  bi_transactionHash :: string
  bi_logIndex :: "string option"
  bi_address :: string
  bi_signature :: string

record 'o BlockchainEvent =
  be_id :: string
  be_name :: string
  be_location :: string
  be_signature :: string
  be_timestamp :: string
  be_output :: 'o
  be_info :: BlockchainInfo

datatype TokenType = FUNGIBLE | NONFUNGIBLE

record TokenPoolEventInfo =
  pi_address :: string
  pi_typeId :: string
  pi_baseUri :: "js_value option"

record TokenPoolEvent =
  tp_standard :: string
  tp_poolLocator :: string
  tp_type :: TokenType
  tp_signer :: string
  tp_data :: string
  tp_info :: TokenPoolEventInfo
  tp_blockchain :: "CreationData BlockchainEvent"

record TokenTransferEvent =
  tt_id :: string
  tt_poolData :: "string option"
  tt_poolLocator :: string
  tt_tokenIndex :: "string option"
  tt_uri :: "string option"
  tt_amount :: "string option"
  tt_signer :: string
  tt_data :: string
  tt_blockchain :: "TransferData BlockchainEvent"
  tt_from :: "string option"
  tt_to :: "string option"

record TokenApprovalEvent =
  ta_id :: string
  ta_poolData :: "string option"
  ta_subject :: string
  ta_poolLocator :: string
  ta_operator :: string
  ta_approved :: bool
  ta_signer :: string
  ta_data :: string
  ta_blockchain :: "ApprovalData BlockchainEvent"

datatype payload =
    PoolPayload TokenPoolEvent
  | TransferPayload TokenTransferEvent
  | ApprovalPayload TokenApprovalEvent

record WebSocketMessage =
  msg_event :: string
  msg_data :: payload

subsection \<open>Helpers of the listener\<close>

text \<open>\<^verbatim>\<open>substring(0, -1)\<close> is the empty string.\<close>

definition stripParamsFromSignature :: "string \<Rightarrow> string" where
  "stripParamsFromSignature signature =
     (case indexOf signature CHR ''('' of None \<Rightarrow> [] | Some i \<Rightarrow> take i signature)"

definition trimEventSignature :: "string \<Rightarrow> string" where
  "trimEventSignature signature =
     (case indexOf signature CHR '':'' of
        Some firstColon \<Rightarrow> if firstColon > 0 then drop (firstColon + 1) signature else signature
      | None \<Rightarrow> signature)"

text \<open>
  The \<^verbatim>\<open>blockchain\<close> object, which the three transformations build from the same
  expression.
\<close>

definition blockchainEvent :: "string \<Rightarrow> 'd Event \<Rightarrow> 'o \<Rightarrow> 'o BlockchainEvent" where
  "blockchainEvent eventId event output =
     \<lparr>be_id = eventId,
      be_name = stripParamsFromSignature (trimEventSignature (ev_signature event)),
      be_location = ''address='' @ ev_address event,
      be_signature = trimEventSignature (ev_signature event),
      be_timestamp = ev_timestamp event,
      be_output = output,
      be_info = \<lparr>bi_blockNumber = ev_blockNumber event,
                 bi_transactionIndex = ev_transactionIndex event,
                 bi_transactionHash = ev_transactionHash event,
                 bi_logIndex = ev_logIndex event,
                 bi_address = ev_address event,
                 bi_signature = trimEventSignature (ev_signature event)\<rparr>\<rparr>"

text \<open>
  \<^verbatim>\<open>getTokenUri\<close>: everything is inside the \<^verbatim>\<open>try\<close>, so a failed query and a reply
  that is no string (on which \<^verbatim>\<open>includes\<close> is no function) both give the empty string.
\<close>

definition getTokenUri ::
  "'a env_scheme \<Rightarrow> string \<Rightarrow> TokensService \<Rightarrow> string \<times> TokensService" where
  "getTokenUri env tokenId s =
     (case query env (find_abi env ''uri'') [tokenId] s of
        (Inr (JStr output), s1) \<Rightarrow>
          (if str_includes output ''{id}''
           then replace_first output ''{id}'' (encodeHexIDForURI env tokenId)
           else output, s1)
      | (_, s1) \<Rightarrow> ([], s1))"

subsection \<open>The transformations\<close>

definition transformTokenPoolCreationEvent ::
  "'a env_scheme \<Rightarrow> string \<Rightarrow> CreationData Event \<Rightarrow> TokensService
     \<Rightarrow> (error + WebSocketMessage option) \<times> TokensService" where
  "transformTokenPoolCreationEvent env subName event s =
     (let output = ev_data event in
      case unpackTokenId env (cd_type_id output) of
        Inl e \<Rightarrow> (Inl e, s)
      | Inr unpackedId \<Rightarrow>
          (let unpackedSub = unpackSubscriptionName env subName;
               decodedData = decodeHex env (case cd_data output of None \<Rightarrow> [] | Some d \<Rightarrow> d)
           in (case us_poolLocator unpackedSub of
                 None \<Rightarrow> (Inr None, s)
               | Some subLocator \<Rightarrow>
                   (let poolLocator = unpackPoolLocator env subLocator in
                    if pl_poolId poolLocator \<noteq> BASE_SUBSCRIPTION_NAME
                       \<and> pl_poolId poolLocator \<noteq> ut_poolId unpackedId
                    then (Inr None, s)
                    else
                      (let typeId = ''0x'' @ encodeHexIDForURI env (cd_type_id output);
                           (supported, s1) = isCustomUriSupported env s;
                           (baseUri, s2) =
                             (if supported
                              then (let (uri, s') = queryBaseUri env s1 in (Some uri, s'))
                              else (None, s1))
                       in (case formatBlockchainEventId event of
                             Inl e \<Rightarrow> (Inl e, s2)
                           | Inr eventId \<Rightarrow>
                               (Inr (Some
                                  \<lparr>msg_event = ''token-pool'',
                                   msg_data = PoolPayload
                                     \<lparr>tp_standard = TOKEN_STANDARD,
                                      tp_poolLocator =
                                        packPoolLocator env (ut_poolId unpackedId)
                                          (ev_blockNumber event),
                                      tp_type = (if ut_isFungible unpackedId
                                                 then FUNGIBLE else NONFUNGIBLE),
                                      tp_signer = cd_operator output,
                                      tp_data = decodedData,
                                      tp_info = \<lparr>pi_address = ev_address event,
                                                 pi_typeId = typeId,
                                                 pi_baseUri = baseUri\<rparr>,
                                      tp_blockchain =
                                        blockchainEvent eventId event output\<rparr>\<rparr>),
                                s2)))))))"

definition transformTransferSingleEvent ::
  "'a env_scheme \<Rightarrow> string \<Rightarrow> TransferData Event \<Rightarrow> nat option \<Rightarrow> TokensService
     \<Rightarrow> (error + WebSocketMessage option) \<times> TokensService" where
  "transformTransferSingleEvent env subName event eventIndex s =
     (let output = ev_data event in
      case unpackTokenId env (td_id output) of
        Inl e \<Rightarrow> (Inl e, s)
      | Inr unpackedId \<Rightarrow>
          (let unpackedSub = unpackSubscriptionName env subName;
               decodedData = decodeHex env (case ev_inputArgs event of
                                              Some (Some d) \<Rightarrow> d | _ \<Rightarrow> [])
           in (case us_poolLocator unpackedSub of
                 None \<Rightarrow> (Inr None, s)
               | Some subLocator \<Rightarrow>
                   (let poolLocator = unpackPoolLocator env subLocator in
                    if pl_poolId poolLocator \<noteq> ut_poolId unpackedId then (Inr None, s)
                    else if td_from output = ZERO_ADDRESS \<and> td_to output = ZERO_ADDRESS
                    then (Inr None, s)
                    else
                      (let (uri, s1) =
                             (if ut_isFungible unpackedId then (None, s)
                              else (let (u, s') = getTokenUri env (td_id output) s
                                    in (Some u, s')))
                       in (case formatBlockchainEventId event of
                             Inl e \<Rightarrow> (Inl e, s1)
                           | Inr eventId \<Rightarrow>
                               (let transferId =
                                      (case eventIndex of
                                         None \<Rightarrow> eventId
                                       | Some i \<Rightarrow>
                                           eventId @ ''/'' @ padStart 6 CHR ''0'' (toString10 i));
                                    commonData =
                                      \<lparr>tt_id = transferId,
                                       tt_poolData = us_poolData unpackedSub,
                                       tt_poolLocator = subLocator,
                                       tt_tokenIndex = ut_tokenIndex unpackedId,
                                       tt_uri = uri,
                                       tt_amount = td_value output,
                                       tt_signer = td_operator output,
                                       tt_data = decodedData,
                                       tt_blockchain = blockchainEvent eventId event output,
                                       tt_from = None,
                                       tt_to = None\<rparr>
                                in if td_from output = ZERO_ADDRESS then
                                     (Inr (Some \<lparr>msg_event = ''token-mint'',
                                                 msg_data = TransferPayload
                                                   (commonData\<lparr>tt_to := Some (td_to output)\<rparr>)\<rparr>),
                                      s1)
                                   else if td_to output = ZERO_ADDRESS then
                                     (Inr (Some \<lparr>msg_event = ''token-burn'',
                                                 msg_data = TransferPayload
                                                   (commonData\<lparr>tt_from := Some (td_from output)\<rparr>)\<rparr>),
                                      s1)
                                   else
                                     (Inr (Some \<lparr>msg_event = ''token-transfer'',
                                                 msg_data = TransferPayload
                                                   (commonData\<lparr>tt_from := Some (td_from output),
                                                               tt_to := Some (td_to output)\<rparr>)\<rparr>),
                                      s1))))))))"

text \<open>\<^verbatim>\<open>xs[i]\<close>: \<^verbatim>\<open>undefined\<close> past the end.\<close>

definition js_index :: "'b list \<Rightarrow> nat \<Rightarrow> 'b option" where
  "js_index xs i = (if i < length xs then Some (xs ! i) else None)"

text \<open>The event the batch loop hands to the single-transfer path for entry \<open>i\<close>.\<close>

definition batch_entry :: "BatchData Event \<Rightarrow> nat \<Rightarrow> TransferData Event" where
  "batch_entry event i =
     \<lparr>ev_signature = ev_signature event, ev_address = ev_address event,
      ev_blockNumber = ev_blockNumber event, ev_transactionIndex = ev_transactionIndex event,
      ev_transactionHash = ev_transactionHash event, ev_logIndex = ev_logIndex event,
      ev_timestamp = ev_timestamp event,
      ev_data = \<lparr>td_from = bd_from (ev_data event), td_to = bd_to (ev_data event),
                 td_operator = bd_operator (ev_data event),
                 td_id = bd_ids (ev_data event) ! i,
                 td_value = js_index (bd_values (ev_data event)) i\<rparr>,
      ev_inputArgs = ev_inputArgs event\<rparr>"

function batch_loop ::
  "'a env_scheme \<Rightarrow> string \<Rightarrow> BatchData Event \<Rightarrow> nat \<Rightarrow> WebSocketMessage list \<Rightarrow> TokensService
     \<Rightarrow> (error + WebSocketMessage list) \<times> TokensService" where
  "batch_loop env subName event i messages s =
     (if i < length (bd_ids (ev_data event)) then
        (case transformTransferSingleEvent env subName (batch_entry event i) (Some i) s of
           (Inl e, s1) \<Rightarrow> (Inl e, s1)
         | (Inr message, s1) \<Rightarrow>
             batch_loop env subName event (i + 1)
               (case message of None \<Rightarrow> messages | Some m \<Rightarrow> messages @ [m]) s1)
      else (Inr messages, s))"
  by pat_completeness auto
termination
  by (relation "measure (\<lambda>(env, subName, event, i, messages, s). length (bd_ids (ev_data event)) - i)")
     auto

declare batch_loop.simps [simp del]

definition transformTransferBatchEvent ::
  "'a env_scheme \<Rightarrow> string \<Rightarrow> BatchData Event \<Rightarrow> TokensService
     \<Rightarrow> (error + WebSocketMessage list) \<times> TokensService" where
  "transformTransferBatchEvent env subName event s = batch_loop env subName event 0 [] s"


section \<open>Notions used to state the properties\<close>

text \<open>The calls issued between two states of the service.\<close>

definition new_calls :: "TokensService \<Rightarrow> TokensService \<Rightarrow> call list" where
  "new_calls s s' = drop (length (calls s)) (calls s')"

fun is_query_call :: "call \<Rightarrow> bool" where
  "is_query_call (QueryCall m ps) = True"
| "is_query_call c = False"

fun is_list_call :: "call \<Rightarrow> bool" where
  "is_list_call GetStreams = True"
| "is_list_call GetSubscriptions = True"
| "is_list_call c = False"

fun subscription_requests :: "call list \<Rightarrow> SubscriptionRequest list" where
  "subscription_requests [] = []"
| "subscription_requests (GetOrCreateSubscription r # cs) = r # subscription_requests cs"
| "subscription_requests (c # cs) = subscription_requests cs"

text \<open>The \<^verbatim>\<open>id\<close> of a transfer or approval message.\<close>

definition msg_id :: "WebSocketMessage \<Rightarrow> string option" where
  "msg_id m =
     (case msg_data m of
        TransferPayload t \<Rightarrow> Some (tt_id t)
      | ApprovalPayload a \<Rightarrow> Some (ta_id a)
      | PoolPayload p \<Rightarrow> None)"

text \<open>
  The classification of a transfer by the sentinel address, in the words of the
  specification: both zero is no message, \<^verbatim>\<open>from\<close> zero a mint, \<^verbatim>\<open>to\<close> zero a burn,
  neither a transfer.
\<close>

definition transfer_kind :: "TransferData \<Rightarrow> string option" where
  "transfer_kind d =
     (if td_from d = ZERO_ADDRESS \<and> td_to d = ZERO_ADDRESS then None
      else if td_from d = ZERO_ADDRESS then Some ''token-mint''
      else if td_to d = ZERO_ADDRESS then Some ''token-burn''
      else Some ''token-transfer'')"

text \<open>
  The acceptance rule of the single-transfer path: the subscription name carries a pool
  locator whose pool is the pool of the token.
\<close>

definition transfer_accepted :: "'a env_scheme \<Rightarrow> string \<Rightarrow> UnpackedTokenId \<Rightarrow> bool" where
  "transfer_accepted env subName unpackedId =
     (case us_poolLocator (unpackSubscriptionName env subName) of
        None \<Rightarrow> False
      | Some subLocator \<Rightarrow> pl_poolId (unpackPoolLocator env subLocator) = ut_poolId unpackedId)"


text \<open>
  Entry \<open>i\<close> of a batch in the words of the specification: the transfer of \<^verbatim>\<open>ids[i]\<close> and
  \<^verbatim>\<open>values[i]\<close> with the \<^verbatim>\<open>from\<close>, \<^verbatim>\<open>to\<close> and \<^verbatim>\<open>operator\<close> the batch shares, and the
  event that carries it: the event of the batch with that transfer as its data.
\<close>

definition entry_transfer :: "BatchData \<Rightarrow> nat \<Rightarrow> TransferData" where
  "entry_transfer d i =
     \<lparr>td_from = bd_from d, td_to = bd_to d, td_operator = bd_operator d,
      td_id = bd_ids d ! i, td_value = js_index (bd_values d) i\<rparr>"

definition entry_event :: "BatchData Event \<Rightarrow> nat \<Rightarrow> TransferData Event" where
  "entry_event event i =
     \<lparr>ev_signature = ev_signature event, ev_address = ev_address event,
      ev_blockNumber = ev_blockNumber event, ev_transactionIndex = ev_transactionIndex event,
      ev_transactionHash = ev_transactionHash event, ev_logIndex = ev_logIndex event,
      ev_timestamp = ev_timestamp event, ev_data = entry_transfer (ev_data event) i,
      ev_inputArgs = ev_inputArgs event\<rparr>"

text \<open>
  What a transfer message says of its transfer: the kind, the id, the amount, the signer,
  \<^verbatim>\<open>from\<close> and \<^verbatim>\<open>to\<close>, and the raw output. \<open>entry_summary\<close> is what the message of entry
  \<open>i\<close> of a batch has to say, given the provenance id of the batch event.
\<close>

definition transfer_summary ::
  "WebSocketMessage
     \<Rightarrow> (string \<times> string \<times> string option \<times> string \<times> string option \<times> string option
          \<times> TransferData) option" where
  "transfer_summary m =
     (case msg_data m of
        TransferPayload t \<Rightarrow>
          Some (msg_event m, tt_id t, tt_amount t, tt_signer t, tt_from t, tt_to t,
                be_output (tt_blockchain t))
      | _ \<Rightarrow> None)"

definition entry_summary ::
  "string \<Rightarrow> BatchData \<Rightarrow> nat
     \<Rightarrow> string \<times> string \<times> string option \<times> string \<times> string option \<times> string option
         \<times> TransferData" where
  "entry_summary eventId d i =
     ((if bd_from d = ZERO_ADDRESS then ''token-mint''
       else if bd_to d = ZERO_ADDRESS then ''token-burn'' else ''token-transfer''),
      eventId @ ''/'' @ padStart 6 CHR ''0'' (toString10 i),
      js_index (bd_values d) i,
      bd_operator d,
      (if bd_from d = ZERO_ADDRESS then None else Some (bd_from d)),
      (if bd_to d = ZERO_ADDRESS then None else Some (bd_to d)),
      \<lparr>td_from = bd_from d, td_to = bd_to d, td_operator = bd_operator d,
       td_id = bd_ids d ! i, td_value = js_index (bd_values d) i\<rparr>)"

text \<open>Entry \<open>i\<close> of a batch survives: its token decodes, is accepted, and is no zero-to-zero transfer.\<close>

definition entry_survives :: "'a env_scheme \<Rightarrow> string \<Rightarrow> BatchData Event \<Rightarrow> nat \<Rightarrow> bool" where
  "entry_survives env subName event i =
     (case unpackTokenId env (bd_ids (ev_data event) ! i) of
        Inl e \<Rightarrow> False
      | Inr unpackedId \<Rightarrow>
          transfer_accepted env subName unpackedId
          \<and> \<not> (bd_from (ev_data event) = ZERO_ADDRESS \<and> bd_to (ev_data event) = ZERO_ADDRESS))"

text \<open>
  The batch expansion in the words of the specification: the single-transfer path run on
  the entries (\<open>entry_event\<close>) of a list of indices in turn, each with its index as
  sub-index, the service state threaded through, the discarded entries dropped, a failure
  ending the run.
\<close>

fun expand_entries ::
  "'a env_scheme \<Rightarrow> string \<Rightarrow> BatchData Event \<Rightarrow> nat list \<Rightarrow> TokensService
     \<Rightarrow> (error + WebSocketMessage list) \<times> TokensService" where
  "expand_entries env subName event [] s = (Inr [], s)"
| "expand_entries env subName event (i # is) s =
     (case transformTransferSingleEvent env subName (entry_event event i) (Some i) s of
        (Inl e, s1) \<Rightarrow> (Inl e, s1)
      | (Inr message, s1) \<Rightarrow>
          (case expand_entries env subName event is s1 of
             (Inl e, s2) \<Rightarrow> (Inl e, s2)
           | (Inr messages, s2) \<Rightarrow>
               (Inr (case message of None \<Rightarrow> messages | Some m \<Rightarrow> m # messages), s2)))"

text \<open>
  The subscriptions of a stream seen pool by pool: a name is decodable when it yields a
  pool locator and an event; its pool key is the name packed again with the event left
  empty; the events of a pool are the events of the names with its key, in order.
\<close>

definition decodable :: "'a env_scheme \<Rightarrow> string \<Rightarrow> bool" where
  "decodable env n =
     (us_poolLocator (unpackSubscriptionName env n) \<noteq> None
      \<and> us_event (unpackSubscriptionName env n) \<noteq> None)"

definition pool_key :: "'a env_scheme \<Rightarrow> string \<Rightarrow> string option" where
  "pool_key env n =
     (let parts = unpackSubscriptionName env n in
      case (us_poolLocator parts, us_event parts) of
        (Some poolLocator, Some event) \<Rightarrow>
          Some (packSubscriptionName env (us_instancePath parts) poolLocator [] (us_poolData parts))
      | _ \<Rightarrow> None)"

definition pool_events :: "'a env_scheme \<Rightarrow> string list \<Rightarrow> string \<Rightarrow> string list" where
  "pool_events env names key =
     List.map_filter
       (\<lambda>n. if pool_key env n = Some key then us_event (unpackSubscriptionName env n) else None)
       names"

text \<open>The stream the migration check adopts: the one of the expected name, else the one named by the topic.\<close>

definition adopted_stream :: "'a env_scheme \<Rightarrow> TokensService \<Rightarrow> EventStream list \<Rightarrow> EventStream option" where
  "adopted_stream env s streams =
     (case find (\<lambda>st. es_name st = packStreamName env (topic s) (instancePath s)) streams of
        None \<Rightarrow> find (\<lambda>st. es_name st = topic s) streams
      | Some st \<Rightarrow> Some st)"

text \<open>The names of the subscriptions of a stream other than the base subscription.\<close>

definition pool_subscription_names ::
  "'a env_scheme \<Rightarrow> TokensService \<Rightarrow> string \<Rightarrow> Subscription list \<Rightarrow> string list" where
  "pool_subscription_names env s streamId allSubscriptions =
     filter (\<lambda>n. n \<noteq> packSubscriptionName env (Some (instancePath s))
                         BASE_SUBSCRIPTION_NAME tokenCreateEvent None)
       (map sub_name (filter (\<lambda>sb. sub_stream sb = streamId) allSubscriptions))"

text \<open>The digits of \<open>n\<close> in a field of \<open>k\<close> places, most significant first.\<close>

fun fixed :: "nat \<Rightarrow> nat \<Rightarrow> string" where
  "fixed 0 n = []"
| "fixed (Suc k) n = fixed k (n div 10) @ [digit_char (n mod 10)]"

section \<open>A concrete instance\<close>

text \<open>\<^verbatim>\<open>s.split(c)\<close> for a one-character separator.\<close>

fun split_on :: "char \<Rightarrow> string \<Rightarrow> string list" where
  "split_on c [] = [] # []"
| "split_on c (x # xs) =
     (if x = c then [] # split_on c xs
      else (case split_on c xs of [] \<Rightarrow> [x] # [] | p # ps \<Rightarrow> (x # p) # ps))"

text \<open>
  Modelled from the spec: the identifier codec of \<^verbatim>\<open>tokens.util\<close>, which is not among the
  sources. The specification fixes its contracts, not its wire formats: the token id
  carries a fungibility flag, the pool id and, for a non-fungible token, a token index, and
  its decoder is strict (\<open>MalformedIdentifier\<close> on anything else); the pool locator packs a
  pool id and an optional block number; the subscription name packs instance path, pool
  locator, event and optional pool data, and its decoder is lenient (absent fields on
  anything else). The formats below are one choice that meets these contracts: a token id
  is \<^verbatim>\<open>F<n>\<close> or \<^verbatim>\<open>N<n>#<index>\<close>, a locator \<^verbatim>\<open><pool>\<close> or \<^verbatim>\<open><pool>@<block>\<close>, a
  subscription name \<^verbatim>\<open>fft:<instance>:<locator>:<event>[:<data>]\<close>. They serve the closed
  examples only; every general theorem holds for any codec.
\<close>

definition sample_unpackTokenId :: "string \<Rightarrow> error + UnpackedTokenId" where
  "sample_unpackTokenId w =
     (case split_on CHR ''#'' w of
        [p] \<Rightarrow> if take 1 p = ''F'' \<and> 1 < length p
               then Inr \<lparr>ut_isFungible = True, ut_poolId = p, ut_tokenIndex = None\<rparr>
               else Inl MalformedIdentifier
      | [p, i] \<Rightarrow> if take 1 p = ''N'' \<and> 1 < length p
                  then Inr \<lparr>ut_isFungible = False, ut_poolId = p, ut_tokenIndex = Some i\<rparr>
                  else Inl MalformedIdentifier
      | _ \<Rightarrow> Inl MalformedIdentifier)"

definition sample_packTokenId :: "string \<Rightarrow> string option \<Rightarrow> error + string" where
  "sample_packTokenId poolId tokenIndex =
     (if length poolId \<le> 1 then Inl InvalidArgument
      else (case tokenIndex of None \<Rightarrow> Inr poolId | Some i \<Rightarrow> Inr (poolId @ ''#'' @ i)))"

definition sample_packPoolLocator :: "string \<Rightarrow> string option \<Rightarrow> string" where
  "sample_packPoolLocator poolId blockNumber =
     (case blockNumber of None \<Rightarrow> poolId | Some b \<Rightarrow> poolId @ ''@'' @ b)"

definition sample_unpackPoolLocator :: "string \<Rightarrow> PoolLocator" where
  "sample_unpackPoolLocator w =
     (case indexOf w CHR ''@'' of
        None \<Rightarrow> \<lparr>pl_poolId = w, pl_blockNumber = None\<rparr>
      | Some i \<Rightarrow> \<lparr>pl_poolId = take i w, pl_blockNumber = Some (drop (Suc i) w)\<rparr>)"

definition sample_packSubscriptionName ::
  "string option \<Rightarrow> string \<Rightarrow> string \<Rightarrow> string option \<Rightarrow> string" where
  "sample_packSubscriptionName path poolLocator event poolData =
     join '':''
       ([''fft'', (case path of None \<Rightarrow> [] | Some p \<Rightarrow> p), poolLocator, event]
        @ (case poolData of None \<Rightarrow> [] | Some d \<Rightarrow> [d]))"

definition sample_unpackSubscriptionName :: "string \<Rightarrow> UnpackedSubscriptionName" where
  "sample_unpackSubscriptionName w =
     (case split_on CHR '':'' w of
        [prefix, p, l, e] \<Rightarrow>
          if prefix = ''fft''
          then \<lparr>us_instancePath = Some p, us_poolLocator = Some l, us_event = Some e,
                us_poolData = None\<rparr>
          else \<lparr>us_instancePath = None, us_poolLocator = None, us_event = None,
                us_poolData = None\<rparr>
      | [prefix, p, l, e, d] \<Rightarrow>
          if prefix = ''fft''
          then \<lparr>us_instancePath = Some p, us_poolLocator = Some l, us_event = Some e,
                us_poolData = Some d\<rparr>
          else \<lparr>us_instancePath = None, us_poolLocator = None, us_event = None,
                us_poolData = None\<rparr>
      | _ \<Rightarrow> \<lparr>us_instancePath = None, us_poolLocator = None, us_event = None,
              us_poolData = None\<rparr>)"

definition sample_abi :: "IAbiMethod list" where
  "sample_abi =
     [\<lparr>abi_name = None, abi_type = ''constructor''\<rparr>,
      \<lparr>abi_name = Some ''TokenPoolCreation'', abi_type = ''event''\<rparr>,
      \<lparr>abi_name = Some ''TransferSingle'', abi_type = ''event''\<rparr>,
      \<lparr>abi_name = Some ''TransferBatch'', abi_type = ''event''\<rparr>,
      \<lparr>abi_name = Some ''ApprovalForAll'', abi_type = ''event''\<rparr>,
      \<lparr>abi_name = Some ''create'', abi_type = ''function''\<rparr>,
      \<lparr>abi_name = Some ''mintFungible'', abi_type = ''function''\<rparr>,
      \<lparr>abi_name = Some ''safeTransferFrom'', abi_type = ''function''\<rparr>,
      \<lparr>abi_name = Some ''burn'', abi_type = ''function''\<rparr>,
      \<lparr>abi_name = Some ''setApprovalForAllWithData'', abi_type = ''function''\<rparr>,
      \<lparr>abi_name = Some ''supportsInterface'', abi_type = ''function''\<rparr>,
      \<lparr>abi_name = Some ''baseTokenUri'', abi_type = ''function''\<rparr>,
      \<lparr>abi_name = Some ''uri'', abi_type = ''function''\<rparr>,
      \<lparr>abi_name = Some ''balanceOf'', abi_type = ''function''\<rparr>]"

text \<open>
  An environment with the codec above, in which the contract answers every query with
  \<open>answer\<close>, the directory lists \<open>streams\<close> and \<open>subscriptions\<close>, and creates what it is
  asked to create.
\<close>

definition sample_env ::
  "(error + js_value) \<Rightarrow> EventStream list \<Rightarrow> Subscription list \<Rightarrow> env" where
  "sample_env answer streams subscriptions =
     \<lparr>unpackTokenId = sample_unpackTokenId,
      packTokenId = sample_packTokenId,
      packPoolLocator = sample_packPoolLocator,
      unpackPoolLocator = sample_unpackPoolLocator,
      packSubscriptionName = sample_packSubscriptionName,
      unpackSubscriptionName = sample_unpackSubscriptionName,
      packStreamName = (\<lambda>t p. t @ '':'' @ p),
      decodeHex = (\<lambda>h. h),
      encodeHexIDForURI = (\<lambda>w. w),
      abi = sample_abi,
      http_getContractInfo = (\<lambda>cs. Inr ''C0FFEE''),
      http_postQuery = (\<lambda>cs. answer),
      es_getStreams = (\<lambda>cs. Inr streams),
      es_getSubscriptions = (\<lambda>cs. Inr subscriptions),
      es_createOrUpdateStream =
        (\<lambda>cs. case last cs of
                 CreateOrUpdateStream n t \<Rightarrow> Inr \<lparr>es_id = ''es-1'', es_name = n\<rparr>
               | _ \<Rightarrow> Inl (OtherError ''no such call'')),
      es_getOrCreateSubscription =
        (\<lambda>cs. case last cs of
                 GetOrCreateSubscription r \<Rightarrow>
                   Inr \<lparr>sub_name = sr_name r, sub_stream = sr_streamId r\<rparr>
               | _ \<Rightarrow> Inl (OtherError ''no such call''))\<rparr>"

definition a_service :: TokensService where
  "a_service =
     \<lparr>baseUrl = ''http://ethconnect'', instancePath = ''/inst'',
      instanceUrl = ''http://ethconnect/inst'', topic = ''tok'',
      contractAddress = ''0xc0ffee'', supportsCustomUri = None, stream = None, calls = []\<rparr>"

definition an_event :: "string \<Rightarrow> string \<Rightarrow> string \<Rightarrow> string \<Rightarrow> 'd \<Rightarrow> 'd Event" where
  "an_event sig b t l d =
     \<lparr>ev_signature = sig, ev_address = ''0xc0ffee'', ev_blockNumber = Some b,
      ev_transactionIndex = t, ev_transactionHash = ''0xabc'', ev_logIndex = Some l,
      ev_timestamp = ''1650000000'', ev_data = d, ev_inputArgs = None\<rparr>"

definition a_transfer :: "string \<Rightarrow> string \<Rightarrow> string \<Rightarrow> TransferData Event" where
  "a_transfer sender receiver tokenId =
     an_event ''TransferSingle(address,address,address,uint256,uint256)'' ''5'' ''0x1'' ''2''
       \<lparr>td_from = sender, td_to = receiver, td_operator = ''0xA11CE'', td_id = tokenId,
        td_value = Some ''1''\<rparr>"

definition a_batch :: "string \<Rightarrow> string \<Rightarrow> string list \<Rightarrow> string list \<Rightarrow> BatchData Event" where
  "a_batch sender receiver ids amounts =
     an_event ''TransferBatch(address,address,address,uint256[],uint256[])'' ''5'' ''0x1'' ''2''
       \<lparr>bd_from = sender, bd_to = receiver, bd_operator = ''0xA11CE'', bd_ids = ids,
        bd_values = amounts\<rparr>"



definition sample_streams :: "EventStream list" where
  "sample_streams = [\<lparr>es_id = ''es-3'', es_name = ''other''\<rparr>, \<lparr>es_id = ''es-7'', es_name = ''tok''\<rparr>]"

definition pool_subscriptions :: "string \<Rightarrow> string list \<Rightarrow> Subscription list" where
  "pool_subscriptions locator events =
     map (\<lambda>event. \<lparr>sub_name = sample_packSubscriptionName (Some ''/inst'') locator event None,
                    sub_stream = ''es-7''\<rparr>) events"

section \<open>Decimal fields of fixed width\<close>

lemma replicate_numeral: "replicate (numeral k) x = x # replicate (pred_numeral k) x"
  by (simp add: numeral_eq_Suc)

lemma length_fixed: "length (fixed k n) = k"
  by (induction k arbitrary: n) auto

lemma digit_char_0: "digit_char 0 = CHR ''0''"
  by code_simp

lemma of_char_digit: "d < 10 \<Longrightarrow> (of_char (digit_char d) :: nat) = 48 + d"
  by (simp add: digit_char_def)

lemma fixed_zero: "fixed k 0 = replicate k CHR ''0''"
  by (induction k) (auto simp: digit_char_0 replicate_append_same)

lemma length_toString10: "n < 10 ^ k \<Longrightarrow> 0 < k \<Longrightarrow> length (toString10 n) \<le> k"
proof (induction n arbitrary: k rule: toString10.induct)
  case (1 n)
  show ?case
  proof (cases "n < 10")
    case True
    then show ?thesis using 1(3) by (simp add: toString10.simps [of n])
  next
    case False
    obtain j where k: "k = Suc j" using 1(3) by (cases k) auto
    have "j \<noteq> 0" using False 1(2) k by (cases j) auto
    moreover have "n div 10 < 10 ^ j"
      using 1(2) k by (simp add: less_mult_imp_div_less mult.commute)
    ultimately have "length (toString10 (n div 10)) \<le> j" using 1(1) False by simp
    then show ?thesis using False k by (simp add: toString10.simps [of n])
  qed
qed

lemma padStart_fixed:
  "n < 10 ^ k \<Longrightarrow> 0 < k \<Longrightarrow> padStart k CHR ''0'' (toString10 n) = fixed k n"
proof (induction n arbitrary: k rule: toString10.induct)
  case (1 n)
  obtain j where k: "k = Suc j" using 1(3) by (cases k) auto
  show ?case
  proof (cases "n < 10")
    case True
    then show ?thesis using k by (simp add: toString10.simps [of n] padStart_def fixed_zero)
  next
    case False
    have j0: "0 < j" using False 1(2) k by (cases j) auto
    have lt: "n div 10 < 10 ^ j"
      using 1(2) k by (simp add: less_mult_imp_div_less mult.commute)
    have ih: "padStart j CHR ''0'' (toString10 (n div 10)) = fixed j (n div 10)"
      using 1(1) False lt j0 by simp
    have len: "length (toString10 (n div 10)) \<le> j" using length_toString10 lt j0 by simp
    have "padStart k CHR ''0'' (toString10 n)
        = padStart j CHR ''0'' (toString10 (n div 10)) @ [digit_char (n mod 10)]"
      using False k len by (simp add: toString10.simps [of n] padStart_def Suc_diff_le)
    then show ?thesis using ih k by simp
  qed
qed

lemma str_less_append:
  "length a = length b \<Longrightarrow>
     str_less (a @ r) (b @ t) = (str_less a b \<or> (a = b \<and> str_less r t))"
  by (induction a b rule: list_induct2) auto

lemma fixed_mono: "n < m \<Longrightarrow> m < 10 ^ k \<Longrightarrow> str_less (fixed k n) (fixed k m)"
proof (induction k arbitrary: n m)
  case 0
  then show ?case by simp
next
  case (Suc k)
  have m: "m div 10 < 10 ^ k"
    using Suc.prems by (simp add: less_mult_imp_div_less mult.commute)
  consider (high) "n div 10 < m div 10" | (low) "n div 10 = m div 10" "n mod 10 < m mod 10"
    using Suc.prems(1)
    by (metis div_le_mono less_imp_le_nat mult_div_mod_eq nat_add_left_cancel_less
          nat_neq_iff not_le)
  then show ?case
  proof cases
    case high
    then show ?thesis using Suc.IH [OF high m] by (simp add: str_less_append length_fixed)
  next
    case low
    then show ?thesis by (simp add: str_less_append length_fixed of_char_digit)
  qed
qed

lemma join3: "join sep [a, b, c] = a @ sep @ b @ sep @ c"
  by simp

lemma bigint_toString_int: "bigint_toString (int n) = toString10 n"
  by (simp add: bigint_toString_def)

lemma formatBlockchainEventId_fixed:
  assumes "(case ev_blockNumber e of None \<Rightarrow> ''0'' | Some b \<Rightarrow> b) = toString10 b"
    and "BigInt (ev_transactionIndex e) = Inr (int t)"
    and "(case ev_logIndex e of None \<Rightarrow> ''0'' | Some l \<Rightarrow> l) = toString10 l"
    and "b < 10 ^ 12" and "t < 10 ^ 6" and "l < 10 ^ 6"
  shows "formatBlockchainEventId e = Inr (fixed 12 b @ ''/'' @ fixed 6 t @ ''/'' @ fixed 6 l)"
  using assms unfolding formatBlockchainEventId_def Let_def
  by (simp only: sum.case join3 bigint_toString_int padStart_fixed zero_less_numeral)

lemma BigInt_0x1: "BigInt ''0x1'' = Inr 1"
  by code_simp

lemma toString10_1: "toString10 (Suc 0) = ''1''"
  by code_simp

lemma format_an_event:
  "formatBlockchainEventId (an_event sig b ''0x1'' l d)
     = Inr (padStart 12 CHR ''0'' b @ ''/000001/'' @ padStart 6 CHR ''0'' l)"
  by (simp add: formatBlockchainEventId_def an_event_def BigInt_0x1 bigint_toString_def
        toString10_1 padStart_def replicate_numeral)

lemma padStart_examples:
  "padStart 12 CHR ''0'' ''5'' = ''000000000005''"
  "padStart 6 CHR ''0'' ''2'' = ''000002''"
  "padStart 6 CHR ''0'' ''999999'' = ''999999''"
  "padStart 6 CHR ''0'' ''1000000'' = ''1000000''"
  by (simp_all add: padStart_def replicate_numeral)

section \<open>The provenance id and the order of events\<close>

text \<open>
  Claim C2, as amended. Take two events of one chain whose block numbers and log indices
  are decimal numerals and whose transaction indices \<^verbatim>\<open>BigInt\<close> reads, the block numbers
  below \<open>10^12\<close> and the transaction and log indices below \<open>10^6\<close>, so that every field fits
  its padded width. If the first comes before the second by block number, then transaction
  index, then log index, both provenance ids are produced and the first is strictly less
  than the second as a string.
\<close>

theorem provenance_id_order_within_width:
  fixes e1 :: "'a Event" and e2 :: "'b Event"
  assumes "(case ev_blockNumber e1 of None \<Rightarrow> ''0'' | Some b \<Rightarrow> b) = toString10 b1"
    and "BigInt (ev_transactionIndex e1) = Inr (int t1)"
    and "(case ev_logIndex e1 of None \<Rightarrow> ''0'' | Some l \<Rightarrow> l) = toString10 l1"
    and "(case ev_blockNumber e2 of None \<Rightarrow> ''0'' | Some b \<Rightarrow> b) = toString10 b2"
    and "BigInt (ev_transactionIndex e2) = Inr (int t2)"
    and "(case ev_logIndex e2 of None \<Rightarrow> ''0'' | Some l \<Rightarrow> l) = toString10 l2"
    and "b1 < 10 ^ 12" and "t1 < 10 ^ 6" and "l1 < 10 ^ 6"
    and "b2 < 10 ^ 12" and "t2 < 10 ^ 6" and "l2 < 10 ^ 6"
    and "b1 < b2 \<or> (b1 = b2 \<and> (t1 < t2 \<or> (t1 = t2 \<and> l1 < l2)))"
  shows "\<exists>s1 s2. formatBlockchainEventId e1 = Inr s1 \<and> formatBlockchainEventId e2 = Inr s2
           \<and> str_less s1 s2"
proof -
  have f1: "formatBlockchainEventId e1
              = Inr (fixed 12 b1 @ ''/'' @ fixed 6 t1 @ ''/'' @ fixed 6 l1)"
    using assms by (intro formatBlockchainEventId_fixed)
  have f2: "formatBlockchainEventId e2
              = Inr (fixed 12 b2 @ ''/'' @ fixed 6 t2 @ ''/'' @ fixed 6 l2)"
    using assms by (intro formatBlockchainEventId_fixed)
  have tail: "str_less (fixed 6 t1 @ ''/'' @ fixed 6 l1) (fixed 6 t2 @ ''/'' @ fixed 6 l2)"
    if "t1 < t2 \<or> (t1 = t2 \<and> l1 < l2)"
    using that fixed_mono [of t1 t2 6] fixed_mono [of l1 l2 6] assms(11,12)
    by (auto simp add: str_less_append length_fixed)
  have "str_less (fixed 12 b1 @ ''/'' @ fixed 6 t1 @ ''/'' @ fixed 6 l1)
                 (fixed 12 b2 @ ''/'' @ fixed 6 t2 @ ''/'' @ fixed 6 l2)"
    using assms(13) fixed_mono [of b1 b2 12] assms(10) tail
    by (auto simp add: str_less_append length_fixed)
  with f1 f2 show ?thesis by simp
qed

text \<open>
  The example of the specification: \<open>(block 5, tx 1, log 2)\<close> before \<open>(block 5, tx 1, log 10)\<close>.
\<close>

theorem provenance_id_order_within_width_witness:
  "\<exists>s1 s2. formatBlockchainEventId (an_event ''TransferSingle'' ''5'' ''0x1'' ''2'' ()) = Inr s1
       \<and> formatBlockchainEventId (an_event ''TransferSingle'' ''5'' ''0x1'' ''10'' ()) = Inr s2
       \<and> str_less s1 s2"
proof -
  have d: "toString10 5 = ''5''" "toString10 2 = ''2''" "toString10 10 = ''10''"
    by code_simp+
  have t: "BigInt ''0x1'' = Inr (int 1)" by code_simp
  show ?thesis
    by (rule provenance_id_order_within_width [where ?b1.0 = 5 and ?t1.0 = 1 and ?l1.0 = 2
          and ?b2.0 = 5 and ?t2.0 = 1 and ?l2.0 = 10])
       (simp_all add: an_event_def d t)
qed

text \<open>
  Without the bounds the order fails: in block 5, transaction 1, the log of index 999999
  comes before the log of index 1000000, whose seven digits are not padded, and its id is
  not the smaller string.
\<close>

theorem provenance_id_order_counterexample:
  "formatBlockchainEventId (an_event ''TransferSingle'' ''5'' ''0x1'' ''999999'' ())
     = Inr ''000000000005/000001/999999''
   \<and> formatBlockchainEventId (an_event ''TransferSingle'' ''5'' ''0x1'' ''1000000'' ())
     = Inr ''000000000005/000001/1000000''
   \<and> (999999 :: nat) < 1000000
   \<and> \<not> str_less ''000000000005/000001/999999'' ''000000000005/000001/1000000''"
  by (simp add: format_an_event padStart_examples)

section \<open>Facts about the concrete instance\<close>

lemmas sample_defs =
  sample_env_def sample_unpackTokenId_def sample_packTokenId_def sample_packPoolLocator_def
  sample_unpackPoolLocator_def sample_packSubscriptionName_def sample_unpackSubscriptionName_def
  a_service_def an_event_def a_transfer_def

lemma sample_token_F1:
  "unpackTokenId (sample_env answer streams subs) ''F1''
     = Inr \<lparr>ut_isFungible = True, ut_poolId = ''F1'', ut_tokenIndex = None\<rparr>"
  by (simp add: sample_defs)


lemma sample_sub_F1:
  "unpackSubscriptionName (sample_env answer streams subs) ''fft:/inst:F1:TransferSingle''
     = \<lparr>us_instancePath = Some ''/inst'', us_poolLocator = Some ''F1'',
        us_event = Some ''TransferSingle'', us_poolData = None\<rparr>"
  by (simp add: sample_defs)

lemma sample_locator_F1:
  "unpackPoolLocator (sample_env answer streams subs) ''F1''
     = \<lparr>pl_poolId = ''F1'', pl_blockNumber = None\<rparr>"
  by (simp add: sample_defs)

lemma sample_accepted_F1:
  "transfer_accepted (sample_env answer streams subs) ''fft:/inst:F1:TransferSingle''
     \<lparr>ut_isFungible = True, ut_poolId = ''F1'', ut_tokenIndex = None\<rparr>"
  by (simp add: transfer_accepted_def sample_sub_F1 sample_locator_F1)

lemma a_transfer_sel:
  "ev_data (a_transfer x y w)
     = \<lparr>td_from = x, td_to = y, td_operator = ''0xA11CE'', td_id = w, td_value = Some ''1''\<rparr>"
  "ev_transactionIndex (a_transfer x y w) = ''0x1''"
  by (simp_all add: a_transfer_def an_event_def)

section \<open>The single-transfer path\<close>

lemma formatBlockchainEventId_Inl:
  "formatBlockchainEventId e = Inl x \<longleftrightarrow> BigInt (ev_transactionIndex e) = Inl x"
  by (simp add: formatBlockchainEventId_def Let_def split: sum.splits)

lemma single_rejected:
  assumes "unpackTokenId env (td_id (ev_data event)) = Inr unpackedId"
    and "\<not> transfer_accepted env subName unpackedId \<or> transfer_kind (ev_data event) = None"
  shows "transformTransferSingleEvent env subName event eventIndex s = (Inr None, s)"
  using assms
  by (auto simp add: transformTransferSingleEvent_def transfer_accepted_def transfer_kind_def
        Let_def split: option.splits if_splits)

lemma single_accepted_fails:
  assumes "unpackTokenId env (td_id (ev_data event)) = Inr unpackedId"
    and "transfer_accepted env subName unpackedId"
    and "transfer_kind (ev_data event) = Some k"
    and "formatBlockchainEventId event = Inl e"
  shows "fst (transformTransferSingleEvent env subName event eventIndex s) = Inl e"
  using assms
  by (auto simp add: transformTransferSingleEvent_def transfer_accepted_def transfer_kind_def
        Let_def split: option.splits if_splits prod.splits)

lemma single_accepted_emits:
  assumes "unpackTokenId env (td_id (ev_data event)) = Inr unpackedId"
    and "transfer_accepted env subName unpackedId"
    and "transfer_kind (ev_data event) = Some k"
    and "formatBlockchainEventId event = Inr eventId"
  shows "\<exists>m. fst (transformTransferSingleEvent env subName event eventIndex s) = Inr (Some m)
           \<and> msg_event m = k
           \<and> msg_id m = Some (case eventIndex of None \<Rightarrow> eventId
                  | Some i \<Rightarrow> eventId @ ''/'' @ padStart 6 CHR ''0'' (toString10 i))
           \<and> transfer_summary m
               = Some (k,
                       (case eventIndex of None \<Rightarrow> eventId
                        | Some i \<Rightarrow> eventId @ ''/'' @ padStart 6 CHR ''0'' (toString10 i)),
                       td_value (ev_data event), td_operator (ev_data event),
                       (if td_from (ev_data event) = ZERO_ADDRESS then None
                        else Some (td_from (ev_data event))),
                       (if td_to (ev_data event) = ZERO_ADDRESS then None
                        else Some (td_to (ev_data event))),
                       ev_data event)"
  using assms
  by (auto simp add: transformTransferSingleEvent_def transfer_accepted_def transfer_kind_def
        msg_id_def transfer_summary_def blockchainEvent_def Let_def
        split: option.splits if_splits prod.splits)

text \<open>
  Claim C1. Take a single-transfer event whose token id decodes and which is accepted for
  the subscribed pool. The path returns no message when \<^verbatim>\<open>from\<close> and \<^verbatim>\<open>to\<close> are both
  the zero address; otherwise the message it returns is a \<^verbatim>\<open>token-mint\<close> when \<^verbatim>\<open>from\<close>
  is the zero address, a \<^verbatim>\<open>token-burn\<close> when \<^verbatim>\<open>to\<close> is, a \<^verbatim>\<open>token-transfer\<close> when
  neither is. The only other outcome is the \<open>SyntaxError\<close> of \<^verbatim>\<open>BigInt\<close> on a transaction
  index that is no integer literal, and it arises for an event that is not zero-to-zero.
\<close>

theorem transfer_kind_by_sentinel:
  assumes "unpackTokenId env (td_id (ev_data event)) = Inr unpackedId"
    and "transfer_accepted env subName unpackedId"
  shows "case fst (transformTransferSingleEvent env subName event eventIndex s) of
           Inr message \<Rightarrow> map_option msg_event message = transfer_kind (ev_data event)
         | Inl e \<Rightarrow> BigInt (ev_transactionIndex event) = Inl e
                     \<and> transfer_kind (ev_data event) \<noteq> None"
proof (cases "transfer_kind (ev_data event)")
  case None
  then show ?thesis
    using single_rejected [OF assms(1), of subName eventIndex s] by simp
next
  case (Some k)
  show ?thesis
  proof (cases "formatBlockchainEventId event")
    case (Inl e)
    then show ?thesis
      using single_accepted_fails [OF assms Some Inl, of eventIndex s] Some
      by (simp add: formatBlockchainEventId_Inl)
  next
    case (Inr eventId)
    then show ?thesis
      using single_accepted_emits [OF assms Some Inr, of eventIndex s] Some by auto
  qed
qed

text \<open>The examples of the specification: a mint, a burn, and the discarded zero-to-zero transfer.\<close>

theorem transfer_kind_by_sentinel_witness:
  "(case fst (transformTransferSingleEvent (sample_env (Inr (JStr ''ipfs://{id}'')) [] [])
               ''fft:/inst:F1:TransferSingle'' (a_transfer ZERO_ADDRESS ''0xABC'' ''F1'')
               None a_service) of
      Inr message \<Rightarrow> map_option msg_event message = Some ''token-mint'' | Inl e \<Rightarrow> False)
   \<and> (case fst (transformTransferSingleEvent (sample_env (Inr (JStr ''ipfs://{id}'')) [] [])
               ''fft:/inst:F1:TransferSingle'' (a_transfer ''0xABC'' ZERO_ADDRESS ''F1'')
               None a_service) of
      Inr message \<Rightarrow> map_option msg_event message = Some ''token-burn'' | Inl e \<Rightarrow> False)
   \<and> (case fst (transformTransferSingleEvent (sample_env (Inr (JStr ''ipfs://{id}'')) [] [])
               ''fft:/inst:F1:TransferSingle'' (a_transfer ZERO_ADDRESS ZERO_ADDRESS ''F1'')
               None a_service) of
      Inr message \<Rightarrow> message = None | Inl e \<Rightarrow> False)"
  using transfer_kind_by_sentinel [OF _ sample_accepted_F1,
          of "Inr (JStr ''ipfs://{id}'')" "[]" "[]" "a_transfer ZERO_ADDRESS ''0xABC'' ''F1''"
             None a_service]
        transfer_kind_by_sentinel [OF _ sample_accepted_F1,
          of "Inr (JStr ''ipfs://{id}'')" "[]" "[]" "a_transfer ''0xABC'' ZERO_ADDRESS ''F1''"
             None a_service]
        transfer_kind_by_sentinel [OF _ sample_accepted_F1,
          of "Inr (JStr ''ipfs://{id}'')" "[]" "[]" "a_transfer ZERO_ADDRESS ZERO_ADDRESS ''F1''"
             None a_service]
  by (simp add: a_transfer_sel sample_token_F1 transfer_kind_def ZERO_ADDRESS_def BigInt_0x1
        split: sum.splits)

section \<open>The batch path\<close>

lemma single_undecodable:
  assumes "unpackTokenId env (td_id (ev_data event)) = Inl e"
  shows "transformTransferSingleEvent env subName event eventIndex s = (Inl e, s)"
  using assms by (simp add: transformTransferSingleEvent_def)

lemma batch_entry_entry: "batch_entry event i = entry_event event i"
  by (simp add: batch_entry_def entry_event_def entry_transfer_def)

lemma format_entry_event:
  "formatBlockchainEventId (entry_event event i) = formatBlockchainEventId event"
  by (simp add: formatBlockchainEventId_def entry_event_def Let_def split: sum.splits)

lemma entry_event_data: "ev_data (entry_event event i) = entry_transfer (ev_data event) i"
  by (simp add: entry_event_def)

lemma entry_event_id: "td_id (ev_data (entry_event event i)) = bd_ids (ev_data event) ! i"
  by (simp add: entry_event_def entry_transfer_def)

lemma entry_transfer_kind:
  "transfer_kind (entry_transfer d i)
     = (if bd_from d = ZERO_ADDRESS \<and> bd_to d = ZERO_ADDRESS then None
        else Some (fst (entry_summary eventId d i)))"
  by (simp add: transfer_kind_def entry_transfer_def entry_summary_def)

lemma entry_transfer_kind_None:
  "transfer_kind (entry_transfer d i) = None
     \<longleftrightarrow> bd_from d = ZERO_ADDRESS \<and> bd_to d = ZERO_ADDRESS"
  by (simp add: transfer_kind_def entry_transfer_def)

lemma batch_loop_expand:
  "batch_loop env subName event i messages s =
     (case expand_entries env subName event [i..<length (bd_ids (ev_data event))] s of
        (Inl e, s') \<Rightarrow> (Inl e, s')
      | (Inr ms, s') \<Rightarrow> (Inr (messages @ ms), s'))"
proof (induction env subName event i messages s rule: batch_loop.induct)
  case (1 env subName event i messages s)
  show ?case
  proof (cases "i < length (bd_ids (ev_data event))")
    case False
    then show ?thesis by (simp add: batch_loop.simps [of env subName event i])
  next
    case True
    obtain r s1 where step:
      "transformTransferSingleEvent env subName (batch_entry event i) (Some i) s = (r, s1)"
      by (cases "transformTransferSingleEvent env subName (batch_entry event i) (Some i) s")
    show ?thesis
    proof (cases r)
      case (Inl e)
      then show ?thesis
        using True step
        by (simp add: batch_loop.simps [of env subName event i] upt_conv_Cons
              batch_entry_entry)
    next
      case (Inr message)
      have ih: "batch_loop env subName event (i + 1)
                  (case message of None \<Rightarrow> messages | Some m \<Rightarrow> messages @ [m]) s1 =
                (case expand_entries env subName event
                        [i + 1..<length (bd_ids (ev_data event))] s1 of
                   (Inl e, s') \<Rightarrow> (Inl e, s')
                 | (Inr ms, s') \<Rightarrow>
                     (Inr ((case message of None \<Rightarrow> messages | Some m \<Rightarrow> messages @ [m]) @ ms), s'))"
        using "1.IH" [OF True step [symmetric, unfolded Inr] refl] .
      show ?thesis
        using True step Inr ih
        by (simp add: batch_loop.simps [of env subName event i] upt_conv_Cons
              batch_entry_entry split: prod.splits sum.splits option.splits)
    qed
  qed
qed

lemma single_step_cases:
  assumes "i < length (bd_ids (ev_data event))"
    and "transformTransferSingleEvent env subName (entry_event event i) (Some i) s = (Inr r, s1)"
  shows "(r = None \<longleftrightarrow> \<not> entry_survives env subName event i)
       \<and> (\<forall>m eventId. r = Some m \<longrightarrow> formatBlockchainEventId event = Inr eventId \<longrightarrow>
             msg_id m = Some (eventId @ ''/'' @ padStart 6 CHR ''0'' (toString10 i))
             \<and> transfer_summary m = Some (entry_summary eventId (ev_data event) i))"
proof (cases "unpackTokenId env (bd_ids (ev_data event) ! i)")
  case (Inl e)
  then show ?thesis
    using assms(2) single_undecodable [of env "entry_event event i" e subName "Some i" s]
    by (simp add: entry_event_id)
next
  case (Inr unpackedId)
  then have dec: "unpackTokenId env (td_id (ev_data (entry_event event i))) = Inr unpackedId"
    by (simp add: entry_event_id)
  show ?thesis
  proof (cases "entry_survives env subName event i")
    case False
    then have "\<not> transfer_accepted env subName unpackedId
                 \<or> transfer_kind (ev_data (entry_event event i)) = None"
      using Inr by (auto simp add: entry_survives_def entry_event_data entry_transfer_kind_None)
    then show ?thesis
      using single_rejected [OF dec, of subName "Some i" s] assms(2) False by simp
  next
    case True
    then have acc: "transfer_accepted env subName unpackedId"
      and nz: "\<not> (bd_from (ev_data event) = ZERO_ADDRESS \<and> bd_to (ev_data event) = ZERO_ADDRESS)"
      using Inr by (auto simp add: entry_survives_def)
    show ?thesis
    proof (cases "formatBlockchainEventId event")
      case (Inl e)
      have k: "transfer_kind (ev_data (entry_event event i))
                 = Some (fst (entry_summary [] (ev_data event) i))"
        using nz by (simp add: entry_event_data entry_transfer_kind [of _ _ "[]"])
      show ?thesis
        using single_accepted_fails [OF dec acc k, of e "Some i" s] assms(2) Inl
        by (simp add: format_entry_event)
    next
      case (Inr eventId)
      have k: "transfer_kind (ev_data (entry_event event i))
                 = Some (fst (entry_summary eventId (ev_data event) i))"
        using nz by (simp add: entry_event_data entry_transfer_kind [of _ _ eventId])
      have fmt: "formatBlockchainEventId (entry_event event i) = Inr eventId"
        using Inr by (simp add: format_entry_event)
      obtain m where m: "r = Some m"
        and mid: "msg_id m = Some (eventId @ ''/'' @ padStart 6 CHR ''0'' (toString10 i))"
        and msum: "transfer_summary m
               = Some (fst (entry_summary eventId (ev_data event) i),
                       eventId @ ''/'' @ padStart 6 CHR ''0'' (toString10 i),
                       td_value (ev_data (entry_event event i)),
                       td_operator (ev_data (entry_event event i)),
                       (if td_from (ev_data (entry_event event i)) = ZERO_ADDRESS then None
                        else Some (td_from (ev_data (entry_event event i)))),
                       (if td_to (ev_data (entry_event event i)) = ZERO_ADDRESS then None
                        else Some (td_to (ev_data (entry_event event i)))),
                       ev_data (entry_event event i))"
        using single_accepted_emits [OF dec acc k fmt, of "Some i" s] assms(2) by auto
      have "transfer_summary m = Some (entry_summary eventId (ev_data event) i)"
        unfolding msum by (simp add: entry_event_data entry_transfer_def entry_summary_def)
      then show ?thesis using m mid True Inr by simp
    qed
  qed
qed

lemma expand_entries_ids:
  assumes "\<forall>i \<in> set is. i < length (bd_ids (ev_data event))"
    and "expand_entries env subName event is s = (Inr messages, s')"
  shows "length messages = length (filter (entry_survives env subName event) is)
       \<and> (\<forall>eventId. formatBlockchainEventId event = Inr eventId \<longrightarrow>
            map msg_id messages
              = map (\<lambda>i. Some (eventId @ ''/'' @ padStart 6 CHR ''0'' (toString10 i)))
                  (filter (entry_survives env subName event) is)
            \<and> map transfer_summary messages
              = map (\<lambda>i. Some (entry_summary eventId (ev_data event) i))
                  (filter (entry_survives env subName event) is))"
  using assms
proof (induction "is" arbitrary: s messages s')
  case Nil
  then show ?case by simp
next
  case (Cons i "is")
  obtain r s1 where step:
    "transformTransferSingleEvent env subName (entry_event event i) (Some i) s = (r, s1)"
    by (cases "transformTransferSingleEvent env subName (entry_event event i) (Some i) s")
  from Cons.prems(2) step obtain message where r: "r = Inr message"
    by (cases r) auto
  obtain r2 s2 where rest: "expand_entries env subName event is s1 = (r2, s2)"
    by (cases "expand_entries env subName event is s1")
  from Cons.prems(2) step r rest obtain ms where r2: "r2 = Inr ms"
    by (cases r2) auto
  have msgs: "messages = (case message of None \<Rightarrow> ms | Some m \<Rightarrow> m # ms)"
    using Cons.prems(2) step r rest r2 by simp
  have ih: "length ms = length (filter (entry_survives env subName event) is)
       \<and> (\<forall>eventId. formatBlockchainEventId event = Inr eventId \<longrightarrow>
            map msg_id ms
              = map (\<lambda>i. Some (eventId @ ''/'' @ padStart 6 CHR ''0'' (toString10 i)))
                  (filter (entry_survives env subName event) is)
            \<and> map transfer_summary ms
              = map (\<lambda>i. Some (entry_summary eventId (ev_data event) i))
                  (filter (entry_survives env subName event) is))"
    using Cons.IH [of s1 ms s2] Cons.prems(1) rest r2 by simp
  have i: "i < length (bd_ids (ev_data event))" using Cons.prems(1) by simp
  note sc = single_step_cases [OF i step [unfolded r]]
  show ?case
  proof (cases message)
    case None
    then show ?thesis using sc ih msgs by simp
  next
    case (Some m)
    then show ?thesis using sc ih msgs by simp
  qed
qed

lemma single_total:
  assumes "unpackTokenId env (td_id (ev_data event)) = Inr unpackedId"
    and "formatBlockchainEventId event = Inr eventId"
  shows "\<exists>r s1. transformTransferSingleEvent env subName event eventIndex s = (Inr r, s1)"
proof (cases "transfer_accepted env subName unpackedId \<and> transfer_kind (ev_data event) \<noteq> None")
  case False
  then show ?thesis using single_rejected [OF assms(1), of subName eventIndex s] by auto
next
  case True
  then obtain k where "transfer_kind (ev_data event) = Some k" by auto
  then show ?thesis
    using single_accepted_emits [OF assms(1) _ _ assms(2), of subName k eventIndex s] True
    by (cases "transformTransferSingleEvent env subName event eventIndex s") auto
qed

lemma expand_entries_total:
  assumes "\<forall>i \<in> set is. \<exists>u. unpackTokenId env (bd_ids (ev_data event) ! i) = Inr u"
    and "formatBlockchainEventId event = Inr eventId"
  shows "\<exists>messages s'. expand_entries env subName event is s = (Inr messages, s')"
  using assms(1)
proof (induction "is" arbitrary: s)
  case Nil
  then show ?case by simp
next
  case (Cons i "is")
  from Cons.prems obtain u where u: "unpackTokenId env (bd_ids (ev_data event) ! i) = Inr u"
    by auto
  obtain r s1 where step:
    "transformTransferSingleEvent env subName (entry_event event i) (Some i) s = (Inr r, s1)"
    using single_total [of env "entry_event event i" u eventId subName "Some i" s] u assms(2)
    by (auto simp add: entry_event_id format_entry_event)
  obtain ms s2 where "expand_entries env subName event is s1 = (Inr ms, s2)"
    using Cons.IH [of s1] Cons.prems by auto
  then show ?case using step by simp
qed

lemma formatBlockchainEventId_Inr:
  "BigInt (ev_transactionIndex e) = Inr t \<Longrightarrow> \<exists>eventId. formatBlockchainEventId e = Inr eventId"
  by (simp add: formatBlockchainEventId_def Let_def)

text \<open>
  Claim C3. The batch path returns what the single-transfer path returns when run on the
  entries \<open>0, \<dots>, N-1\<close> in ascending order, entry \<open>i\<close> being the transfer of \<^verbatim>\<open>ids[i]\<close>
  and \<^verbatim>\<open>values[i]\<close> with the shared \<^verbatim>\<open>from\<close>, \<^verbatim>\<open>to\<close> and \<^verbatim>\<open>operator\<close>, each with its
  index as sub-index, the discarded entries dropped (\<open>expand_entries\<close>). When it returns
  messages, they are as many as the entries that survive, in the order of their indices,
  and the message of entry \<open>i\<close> has as id the provenance id of the event followed by
  \<^verbatim>\<open>/\<close> and \<open>i\<close> padded to six digits, as amount \<^verbatim>\<open>values[i]\<close>, as signer the operator, the
  kind and the \<^verbatim>\<open>from\<close> and \<^verbatim>\<open>to\<close> the shared addresses give, and as raw output the
  transfer of \<^verbatim>\<open>ids[i]\<close> and \<^verbatim>\<open>values[i]\<close>. It does return messages when the transaction
  index is an integer literal and every token id decodes.
\<close>

theorem batch_expansion:
  "transformTransferBatchEvent env subName event s
     = expand_entries env subName event [0..<length (bd_ids (ev_data event))] s
   \<and> (\<forall>messages s'.
         transformTransferBatchEvent env subName event s = (Inr messages, s') \<longrightarrow>
         length messages
           = length (filter (entry_survives env subName event)
                       [0..<length (bd_ids (ev_data event))])
         \<and> (\<forall>eventId. formatBlockchainEventId event = Inr eventId \<longrightarrow>
               map msg_id messages
                 = map (\<lambda>i. Some (eventId @ ''/'' @ padStart 6 CHR ''0'' (toString10 i)))
                     (filter (entry_survives env subName event)
                        [0..<length (bd_ids (ev_data event))])
               \<and> map transfer_summary messages
                 = map (\<lambda>i. Some (entry_summary eventId (ev_data event) i))
                     (filter (entry_survives env subName event)
                        [0..<length (bd_ids (ev_data event))])))
   \<and> ((\<exists>t. BigInt (ev_transactionIndex event) = Inr t)
        \<and> (\<forall>i < length (bd_ids (ev_data event)).
              \<exists>u. unpackTokenId env (bd_ids (ev_data event) ! i) = Inr u)
       \<longrightarrow> (\<exists>messages s'. transformTransferBatchEvent env subName event s = (Inr messages, s')))"
proof -
  have eq: "transformTransferBatchEvent env subName event s
     = expand_entries env subName event [0..<length (bd_ids (ev_data event))] s"
    by (simp add: transformTransferBatchEvent_def batch_loop_expand split: prod.splits sum.splits)
  have ids: "length messages
           = length (filter (entry_survives env subName event)
                       [0..<length (bd_ids (ev_data event))])
         \<and> (\<forall>eventId. formatBlockchainEventId event = Inr eventId \<longrightarrow>
               map msg_id messages
                 = map (\<lambda>i. Some (eventId @ ''/'' @ padStart 6 CHR ''0'' (toString10 i)))
                     (filter (entry_survives env subName event)
                        [0..<length (bd_ids (ev_data event))])
               \<and> map transfer_summary messages
                 = map (\<lambda>i. Some (entry_summary eventId (ev_data event) i))
                     (filter (entry_survives env subName event)
                        [0..<length (bd_ids (ev_data event))]))"
    if "transformTransferBatchEvent env subName event s = (Inr messages, s')" for messages s'
    using expand_entries_ids [of "[0..<length (bd_ids (ev_data event))]" event env subName s
            messages s'] that eq
    by simp
  have total: "\<exists>messages s'. transformTransferBatchEvent env subName event s = (Inr messages, s')"
    if tx: "\<exists>t. BigInt (ev_transactionIndex event) = Inr t"
      and dec: "\<forall>i < length (bd_ids (ev_data event)).
              \<exists>u. unpackTokenId env (bd_ids (ev_data event) ! i) = Inr u"
  proof -
    obtain eventId where "formatBlockchainEventId event = Inr eventId"
      using tx formatBlockchainEventId_Inr by blast
    then show ?thesis
      using expand_entries_total [of "[0..<length (bd_ids (ev_data event))]" env event eventId
              subName s] dec eq
      by simp
  qed
  show ?thesis using eq ids total by blast
qed

text \<open>
  The example of the specification with an entry of another pool in between: three entries
  under the subscription of pool \<^verbatim>\<open>N2\<close>, the second of pool \<^verbatim>\<open>F1\<close>. Two messages, of
  sub-indices \<^verbatim>\<open>000000\<close> and \<^verbatim>\<open>000002\<close>, with the amounts, the addresses and the operator
  of their entries.
\<close>

lemma a_batch_sel:
  "bd_ids (ev_data (a_batch x y ids amounts)) = ids"
  "ev_transactionIndex (a_batch x y ids amounts) = ''0x1''"
  "formatBlockchainEventId (a_batch x y ids amounts) = Inr ''000000000005/000001/000002''"
  by (simp_all add: a_batch_def format_an_event padStart_examples) (simp_all add: an_event_def)

lemma a_batch_data:
  "ev_data (a_batch x y ids amounts)
     = \<lparr>bd_from = x, bd_to = y, bd_operator = ''0xA11CE'', bd_ids = ids, bd_values = amounts\<rparr>"
  by (simp add: a_batch_def an_event_def)

lemma upt_3: "[0..<length [a, b, c]] = [0, 1, 2]"
  by (simp add: upt_rec)

lemma pad_index:
  "padStart 6 CHR ''0'' (toString10 0) = ''000000''"
  "padStart 6 CHR ''0'' (toString10 2) = ''000002''"
  by code_simp+

lemma sample_survivors:
  "filter (entry_survives (sample_env answer streams subs) ''fft:/inst:N2@7:TransferBatch''
             (a_batch ''0xABC'' ''0xDEF'' [''N2#1'', ''F1'', ''N2#2''] [''1'', ''10'', ''3'']))
     [0, 1, 2] = [0, 2]"
  by (simp add: entry_survives_def transfer_accepted_def a_batch_data sample_defs
        ZERO_ADDRESS_def)

lemma sample_entry_summary:
  "entry_summary ''000000000005/000001/000002''
     \<lparr>bd_from = ''0xABC'', bd_to = ''0xDEF'', bd_operator = ''0xA11CE'',
      bd_ids = [''N2#1'', ''F1'', ''N2#2''], bd_values = [''1'', ''10'', ''3'']\<rparr> 0
     = (''token-transfer'', ''000000000005/000001/000002/000000'', Some ''1'', ''0xA11CE'',
        Some ''0xABC'', Some ''0xDEF'',
        \<lparr>td_from = ''0xABC'', td_to = ''0xDEF'', td_operator = ''0xA11CE'', td_id = ''N2#1'',
         td_value = Some ''1''\<rparr>)"
  "entry_summary ''000000000005/000001/000002''
     \<lparr>bd_from = ''0xABC'', bd_to = ''0xDEF'', bd_operator = ''0xA11CE'',
      bd_ids = [''N2#1'', ''F1'', ''N2#2''], bd_values = [''1'', ''10'', ''3'']\<rparr> 2
     = (''token-transfer'', ''000000000005/000001/000002/000002'', Some ''3'', ''0xA11CE'',
        Some ''0xABC'', Some ''0xDEF'',
        \<lparr>td_from = ''0xABC'', td_to = ''0xDEF'', td_operator = ''0xA11CE'', td_id = ''N2#2'',
         td_value = Some ''3''\<rparr>)"
  by (simp_all add: entry_summary_def pad_index js_index_def ZERO_ADDRESS_def)

theorem batch_expansion_witness:
  "\<exists>messages s'.
     transformTransferBatchEvent (sample_env (Inr (JStr ''ipfs://{id}'')) [] [])
       ''fft:/inst:N2@7:TransferBatch''
       (a_batch ''0xABC'' ''0xDEF'' [''N2#1'', ''F1'', ''N2#2''] [''1'', ''10'', ''3''])
       a_service = (Inr messages, s')
     \<and> map transfer_summary messages
         = [Some (''token-transfer'', ''000000000005/000001/000002/000000'', Some ''1'',
                  ''0xA11CE'', Some ''0xABC'', Some ''0xDEF'',
                  \<lparr>td_from = ''0xABC'', td_to = ''0xDEF'', td_operator = ''0xA11CE'',
                   td_id = ''N2#1'', td_value = Some ''1''\<rparr>),
            Some (''token-transfer'', ''000000000005/000001/000002/000002'', Some ''3'',
                  ''0xA11CE'', Some ''0xABC'', Some ''0xDEF'',
                  \<lparr>td_from = ''0xABC'', td_to = ''0xDEF'', td_operator = ''0xA11CE'',
                   td_id = ''N2#2'', td_value = Some ''3''\<rparr>)]
     \<and> map msg_id messages
         = [Some ''000000000005/000001/000002/000000'',
            Some ''000000000005/000001/000002/000002'']"
proof -
  let ?env = "sample_env (Inr (JStr ''ipfs://{id}'')) [] []"
  let ?ev = "a_batch ''0xABC'' ''0xDEF'' [''N2#1'', ''F1'', ''N2#2''] [''1'', ''10'', ''3'']"
  note inst = batch_expansion [of ?env "''fft:/inst:N2@7:TransferBatch''" ?ev a_service]
  have dec: "\<forall>i < length (bd_ids (ev_data ?ev)).
               \<exists>u. unpackTokenId ?env (bd_ids (ev_data ?ev) ! i) = Inr u"
    by (simp add: a_batch_sel sample_defs less_Suc_eq numeral_3_eq_3)
  have tx: "\<exists>t. BigInt (ev_transactionIndex ?ev) = Inr t"
    by (simp add: a_batch_sel BigInt_0x1)
  from inst tx dec obtain messages s' where
    run: "transformTransferBatchEvent ?env ''fft:/inst:N2@7:TransferBatch'' ?ev a_service
            = (Inr messages, s')"
    by blast
  have survivors: "filter (entry_survives ?env ''fft:/inst:N2@7:TransferBatch'' ?ev)
             [0..<length (bd_ids (ev_data ?ev))] = [0, 2]"
    by (simp only: a_batch_sel(1) upt_3 sample_survivors)
  from run inst have raw: "map transfer_summary messages
      = map (\<lambda>i. Some (entry_summary ''000000000005/000001/000002'' (ev_data ?ev) i))
          (filter (entry_survives ?env ''fft:/inst:N2@7:TransferBatch'' ?ev)
             [0..<length (bd_ids (ev_data ?ev))])"
    using a_batch_sel(3) by blast
  have sums: "map transfer_summary messages
         = [Some (''token-transfer'', ''000000000005/000001/000002/000000'', Some ''1'',
                  ''0xA11CE'', Some ''0xABC'', Some ''0xDEF'',
                  \<lparr>td_from = ''0xABC'', td_to = ''0xDEF'', td_operator = ''0xA11CE'',
                   td_id = ''N2#1'', td_value = Some ''1''\<rparr>),
            Some (''token-transfer'', ''000000000005/000001/000002/000002'', Some ''3'',
                  ''0xA11CE'', Some ''0xABC'', Some ''0xDEF'',
                  \<lparr>td_from = ''0xABC'', td_to = ''0xDEF'', td_operator = ''0xA11CE'',
                   td_id = ''N2#2'', td_value = Some ''3''\<rparr>)]"
    using raw [unfolded survivors] by (simp add: a_batch_data sample_entry_summary)
  from run inst have raw_ids: "map msg_id messages
      = map (\<lambda>i. Some (''000000000005/000001/000002'' @ ''/''
                          @ padStart 6 CHR ''0'' (toString10 i)))
          (filter (entry_survives ?env ''fft:/inst:N2@7:TransferBatch'' ?ev)
             [0..<length (bd_ids (ev_data ?ev))])"
    using a_batch_sel(3) by blast
  have ids: "map msg_id messages
         = [Some ''000000000005/000001/000002/000000'',
            Some ''000000000005/000001/000002/000002'']"
    using raw_ids [unfolded survivors] by (simp add: pad_index)
  show ?thesis by (rule exI, rule exI, rule conjI [OF run conjI [OF sums ids]])
qed

section \<open>The pool-creation path\<close>












section \<open>A subscription name without pool locator\<close>







section \<open>The query capability\<close>

lemma new_calls_append: "calls s' = calls s @ ext \<Longrightarrow> new_calls s s' = ext"
  by (simp add: new_calls_def)

lemma getContractAddress_frame:
  "\<exists>ext. calls (snd (getContractAddress env s)) = calls s @ ext
         \<and> filter is_query_call ext = []
         \<and> supportsCustomUri (snd (getContractAddress env s)) = supportsCustomUri s"
  by (simp add: getContractAddress_def issue_def Let_def split: sum.splits)

lemma query_frame:
  "\<exists>ext. calls (snd (query env method params s)) = calls s @ QueryCall method params # ext
         \<and> filter is_query_call ext = []
         \<and> supportsCustomUri (snd (query env method params s)) = supportsCustomUri s"
proof -
  let ?s0 = "issue (QueryCall method params) s"
  obtain ext where ext: "calls (snd (getContractAddress env ?s0)) = calls ?s0 @ ext"
    "filter is_query_call ext = []"
    "supportsCustomUri (snd (getContractAddress env ?s0)) = supportsCustomUri ?s0"
    using getContractAddress_frame [of env ?s0] by blast
  obtain r s1 where g: "getContractAddress env ?s0 = (r, s1)"
    by (cases "getContractAddress env ?s0")
  show ?thesis
  proof (cases r)
    case (Inl e)
    then show ?thesis
      using ext g by (simp add: query_def issue_def)
  next
    case (Inr to)
    then show ?thesis
      using ext g by (simp add: query_def issue_def Let_def)
  qed
qed

lemma sample_query_fails:
  "query (sample_env (Inl (AxiosError ''boom'')) streams subs) method params a_service
     = (Inl (InternalServerErrorException ''boom''),
        a_service\<lparr>calls := [QueryCall method params,
                             HttpPostQuery ''http://ethconnect'' ''0xc0ffee'' method params]\<rparr>)"
  by (simp add: query_def getContractAddress_def issue_def wrapError_def sample_env_def
        a_service_def)

lemma a_service_sel: "supportsCustomUri a_service = None" "calls a_service = []"
  by (simp_all add: a_service_def)

text \<open>
  Claim C7, as amended. A failure of the query capability is caught at three call sites:
  the custom-URI support probe (the result is \<open>False\<close>, and it is cached), the base-URI
  query (the result is the empty string) and the token-URI lookup \<^verbatim>\<open>getTokenUri\<close> (the
  result is the empty string). At the remaining call site, \<^verbatim>\<open>balance\<close>, the failure goes
  to the caller.
\<close>

theorem query_failure_handling:
  "(supportsCustomUri s = None
      \<and> query env (find_abi env ''supportsInterface'') [CUSTOM_URI_IID] s = (Inl e, s1)
    \<longrightarrow> isCustomUriSupported env s = (False, s1\<lparr>supportsCustomUri := Some False\<rparr>))
   \<and> (query env (find_abi env ''baseTokenUri'') [CUSTOM_URI_IID] s = (Inl e, s1)
    \<longrightarrow> queryBaseUri env s = (JStr [], s1))
   \<and> (query env (find_abi env ''uri'') [tokenId] s = (Inl e, s1)
    \<longrightarrow> getTokenUri env tokenId s = ([], s1))
   \<and> (packTokenId env (pl_poolId (unpackPoolLocator env (bq_poolLocator dto)))
         (bq_tokenIndex dto) = Inr packed
      \<and> query env (find_abi env ''balanceOf'') [bq_account dto, packed] s = (Inl e, s1)
    \<longrightarrow> balance env dto s = (Inl e, s1))"
  by (simp add: isCustomUriSupported_def queryBaseUri_def getTokenUri_def balance_def Let_def)

text \<open>The four call sites against a contract whose query fails.\<close>

theorem query_failure_handling_witness:
  "fst (isCustomUriSupported (sample_env (Inl (AxiosError ''boom'')) [] []) a_service) = False
   \<and> fst (queryBaseUri (sample_env (Inl (AxiosError ''boom'')) [] []) a_service) = JStr []
   \<and> fst (getTokenUri (sample_env (Inl (AxiosError ''boom'')) [] []) ''N2#1'' a_service) = []
   \<and> fst (balance (sample_env (Inl (AxiosError ''boom'')) [] [])
            \<lparr>bq_poolLocator = ''F1@5'', bq_tokenIndex = None, bq_account = ''0xABC''\<rparr>
            a_service) = Inl (InternalServerErrorException ''boom'')"
proof -
  let ?env = "sample_env (Inl (AxiosError ''boom'')) [] []"
  let ?dto = "\<lparr>bq_poolLocator = ''F1@5'', bq_tokenIndex = None, bq_account = ''0xABC''\<rparr>"
  have p: "packTokenId ?env (pl_poolId (unpackPoolLocator ?env ''F1@5'')) None = Inr ''F1''"
    by (simp add: sample_defs)
  let ?after = "\<lambda>method params.
        a_service\<lparr>calls := [QueryCall method params,
                             HttpPostQuery ''http://ethconnect'' ''0xc0ffee'' method params]\<rparr>"
  note q = sample_query_fails [of "[]" "[]"]
  note h = query_failure_handling [of a_service ?env "InternalServerErrorException ''boom''" _
             "''N2#1''" ?dto "''F1''"]
  show ?thesis
    using h [of "?after (find_abi ?env ''supportsInterface'') [CUSTOM_URI_IID]"]
      h [of "?after (find_abi ?env ''baseTokenUri'') [CUSTOM_URI_IID]"]
      h [of "?after (find_abi ?env ''uri'') [''N2#1'']"]
      h [of "?after (find_abi ?env ''balanceOf'') [''0xABC'', ''F1'']"]
    by (simp add: a_service_sel q p)
qed

text \<open>
  As stated, with two catching call sites only, the claim fails: \<^verbatim>\<open>getTokenUri\<close> is a
  third one. The query for the URI of token \<^verbatim>\<open>N2#1\<close> fails and \<^verbatim>\<open>getTokenUri\<close> returns
  the empty string.
\<close>

theorem query_failure_swallowed_counterexample:
  "fst (query (sample_env (Inl (AxiosError ''boom'')) [] [])
          (find_abi (sample_env (Inl (AxiosError ''boom'')) [] []) ''uri'') [''N2#1''] a_service)
     = Inl (InternalServerErrorException ''boom'')
   \<and> fst (getTokenUri (sample_env (Inl (AxiosError ''boom'')) [] []) ''N2#1'' a_service) = []"
  by (simp add: getTokenUri_def sample_query_fails)

section \<open>The migration check\<close>

lemma events_mismatch_iff: "events_mismatch events \<longleftrightarrow> mset events \<noteq> mset ALL_SUBSCRIBED_EVENTS"
proof
  assume "events_mismatch events"
  then show "mset events \<noteq> mset ALL_SUBSCRIBED_EVENTS"
    by (auto simp add: events_mismatch_def list_all_iff
          dest: mset_eq_length mset_eq_setD)
next
  assume neq: "mset events \<noteq> mset ALL_SUBSCRIBED_EVENTS"
  show "events_mismatch events"
  proof (rule ccontr)
    assume "\<not> events_mismatch events"
    then have len: "length events = length ALL_SUBSCRIBED_EVENTS"
      and sub: "set ALL_SUBSCRIBED_EVENTS \<subseteq> set events"
      by (auto simp add: events_mismatch_def list_all_iff)
    have d: "distinct ALL_SUBSCRIBED_EVENTS"
      by (simp add: ALL_SUBSCRIBED_EVENTS_def tokenCreateEvent_def transferSingleEvent_def
            transferBatchEvent_def approvalForAllEvent_def)
    have "card (set events) \<le> length events" by (rule card_length)
    moreover have "card (set ALL_SUBSCRIBED_EVENTS) \<le> card (set events)"
      using sub by (simp add: card_mono)
    moreover have "card (set ALL_SUBSCRIBED_EVENTS) = length ALL_SUBSCRIBED_EVENTS"
      using d by (simp add: distinct_card)
    ultimately have c: "card (set events) = length events"
      and c2: "card (set ALL_SUBSCRIBED_EVENTS) = card (set events)"
      using len by auto
    have "set ALL_SUBSCRIBED_EVENTS = set events"
      using sub c2 by (simp add: card_subset_eq)
    moreover have "distinct events" using c by (simp add: card_distinct)
    ultimately have "mset events = mset ALL_SUBSCRIBED_EVENTS"
      using d by (simp add: set_eq_iff_mset_eq_distinct)
    with neq show False by simp
  qed
qed

lemma map_of_record_event:
  "map_of (record_event found key event)
     = (map_of found)(key \<mapsto> (case map_of found key of None \<Rightarrow> [event]
                                  | Some existing \<Rightarrow> existing @ [event]))"
  by (induction found key event rule: record_event.induct) (auto simp add: fun_eq_iff)

lemma keys_record_event:
  "map fst (record_event found key event)
     = (if key \<in> set (map fst found) then map fst found else map fst found @ [key])"
  by (induction found key event rule: record_event.induct) auto

lemma distinct_record_event:
  "distinct (map fst found) \<Longrightarrow> distinct (map fst (record_event found key event))"
  by (simp add: keys_record_event)

lemma check_events_iff:
  "check_events found \<longleftrightarrow> (\<exists>(key, events) \<in> set found. events_mismatch events)"
  by (induction found rule: check_events.induct) auto

lemma check_events_map_of:
  assumes "distinct (map fst found)"
  shows "check_events found \<longleftrightarrow> (\<exists>key events. map_of found key = Some events \<and> events_mismatch events)"
  using assms by (auto simp add: check_events_iff dest: map_of_SomeD)

lemma pool_events_Cons:
  "pool_events env (n # names) key
     = (if pool_key env n = Some key
        then (case us_event (unpackSubscriptionName env n) of
                None \<Rightarrow> pool_events env names key
              | Some event \<Rightarrow> event # pool_events env names key)
        else pool_events env names key)"
  unfolding pool_events_def by simp

lemma collect_events_None:
  assumes "\<exists>sb \<in> set subs. sub_name sb \<noteq> base \<and> \<not> decodable env (sub_name sb)"
  shows "collect_events env base subs found = None"
  using assms
proof (induction subs arbitrary: found)
  case Nil
  then show ?case by simp
next
  case (Cons sb subs)
  then show ?case
    by (auto simp add: decodable_def Let_def split: option.splits)
qed

lemma collect_events_Some:
  assumes "\<forall>sb \<in> set subs. sub_name sb \<noteq> base \<longrightarrow> decodable env (sub_name sb)"
    and "distinct (map fst found)"
  shows "\<exists>found'. collect_events env base subs found = Some found'
           \<and> distinct (map fst found')
           \<and> (\<forall>key. map_of found' key
                 = (case map_of found key of
                      None \<Rightarrow>
                        (if pool_events env (filter (\<lambda>n. n \<noteq> base) (map sub_name subs)) key = []
                         then None
                         else Some (pool_events env
                                      (filter (\<lambda>n. n \<noteq> base) (map sub_name subs)) key))
                    | Some existing \<Rightarrow>
                        Some (existing @ pool_events env
                                (filter (\<lambda>n. n \<noteq> base) (map sub_name subs)) key)))"
  using assms
proof (induction subs arbitrary: found)
  case Nil
  then show ?case by (simp add: pool_events_def split: option.splits)
next
  case (Cons sb subs)
  show ?case
  proof (cases "sub_name sb = base")
    case True
    then have names: "filter (\<lambda>n. n \<noteq> base) (map sub_name (sb # subs))
                        = filter (\<lambda>n. n \<noteq> base) (map sub_name subs)"
      by simp
    have step: "collect_events env base (sb # subs) found = collect_events env base subs found"
      using True by simp
    show ?thesis unfolding names step using Cons.IH [of found] Cons.prems by simp
  next
    case False
    then have dec: "decodable env (sub_name sb)" using Cons.prems(1) by simp
    then obtain poolLocator event where
      pl: "us_poolLocator (unpackSubscriptionName env (sub_name sb)) = Some poolLocator"
      and ev: "us_event (unpackSubscriptionName env (sub_name sb)) = Some event"
      by (auto simp add: decodable_def)
    let ?key = "packSubscriptionName env (us_instancePath (unpackSubscriptionName env (sub_name sb)))
                  poolLocator [] (us_poolData (unpackSubscriptionName env (sub_name sb)))"
    have pk: "pool_key env (sub_name sb) = Some ?key"
      using pl ev by (simp add: pool_key_def Let_def)
    let ?found1 = "record_event found ?key event"
    have step: "collect_events env base (sb # subs) found = collect_events env base subs ?found1"
      using False pl ev by (simp add: Let_def)
    obtain found' where f: "collect_events env base subs ?found1 = Some found'"
      and d: "distinct (map fst found')"
      and m: "\<forall>key. map_of found' key
                 = (case map_of ?found1 key of
                      None \<Rightarrow>
                        (if pool_events env (filter (\<lambda>n. n \<noteq> base) (map sub_name subs)) key = []
                         then None
                         else Some (pool_events env
                                      (filter (\<lambda>n. n \<noteq> base) (map sub_name subs)) key))
                    | Some existing \<Rightarrow>
                        Some (existing @ pool_events env
                                (filter (\<lambda>n. n \<noteq> base) (map sub_name subs)) key))"
      using Cons.IH [of ?found1] Cons.prems distinct_record_event by auto
    have names: "filter (\<lambda>n. n \<noteq> base) (map sub_name (sb # subs))
                   = sub_name sb # filter (\<lambda>n. n \<noteq> base) (map sub_name subs)"
      using False by simp
    have "map_of found' key
                 = (case map_of found key of
                      None \<Rightarrow>
                        (if pool_events env (filter (\<lambda>n. n \<noteq> base) (map sub_name (sb # subs))) key = []
                         then None
                         else Some (pool_events env
                                      (filter (\<lambda>n. n \<noteq> base) (map sub_name (sb # subs))) key))
                    | Some existing \<Rightarrow>
                        Some (existing @ pool_events env
                                (filter (\<lambda>n. n \<noteq> base) (map sub_name (sb # subs))) key))" for key
      unfolding names
      using m [rule_format, of key] pk ev
      by (auto simp add: map_of_record_event pool_events_Cons split: option.splits)
    then show ?thesis using step f d by simp
  qed
qed

lemma pool_events_nonempty:
  assumes "\<forall>n \<in> set names. decodable env n"
  shows "pool_events env names key \<noteq> [] \<longleftrightarrow> key \<in> set (List.map_filter (pool_key env) names)"
  using assms
proof (induction names)
  case Nil
  then show ?case by (simp add: pool_events_def)
next
  case (Cons n names)
  then obtain event where "us_event (unpackSubscriptionName env n) = Some event"
    by (auto simp add: decodable_def)
  then show ?case
    using Cons by (auto simp add: pool_events_Cons split: option.splits)
qed

lemma migration_loops:
  "(case collect_events env base subs [] of None \<Rightarrow> True | Some found \<Rightarrow> check_events found)
     = ((\<exists>n \<in> set (filter (\<lambda>n. n \<noteq> base) (map sub_name subs)). \<not> decodable env n)
        \<or> (\<exists>key \<in> set (List.map_filter (pool_key env)
                           (filter (\<lambda>n. n \<noteq> base) (map sub_name subs))).
              mset (pool_events env (filter (\<lambda>n. n \<noteq> base) (map sub_name subs)) key)
                \<noteq> mset ALL_SUBSCRIBED_EVENTS))"
proof (cases "\<exists>sb \<in> set subs. sub_name sb \<noteq> base \<and> \<not> decodable env (sub_name sb)")
  case True
  then have "collect_events env base subs [] = None" by (rule collect_events_None)
  moreover have "\<exists>n \<in> set (filter (\<lambda>n. n \<noteq> base) (map sub_name subs)). \<not> decodable env n"
    using True by auto
  ultimately show ?thesis by simp
next
  case False
  let ?names = "filter (\<lambda>n. n \<noteq> base) (map sub_name subs)"
  from False have all: "\<forall>n \<in> set ?names. decodable env n" by auto
  from False obtain found where f: "collect_events env base subs [] = Some found"
    and d: "distinct (map fst found)"
    and m: "\<forall>key. map_of found key
              = (if pool_events env ?names key = [] then None
                 else Some (pool_events env ?names key))"
    using collect_events_Some [of subs base env "[]"] by auto
  have "check_events found
          \<longleftrightarrow> (\<exists>key. pool_events env ?names key \<noteq> []
                     \<and> events_mismatch (pool_events env ?names key))"
    using m by (auto simp add: check_events_map_of [OF d])
  also have "\<dots> \<longleftrightarrow> (\<exists>key \<in> set (List.map_filter (pool_key env) ?names).
                         mset (pool_events env ?names key) \<noteq> mset ALL_SUBSCRIBED_EVENTS)"
    by (auto simp add: pool_events_nonempty [OF all] events_mismatch_iff)
  finally show ?thesis using f all by simp
qed

lemma migrationCheck_run:
  assumes "es_getStreams env (calls s @ [GetStreams]) = Inr streams"
    and "adopted_stream env s streams = Some existingStream"
    and "es_getSubscriptions env (calls s @ [GetStreams, GetSubscriptions]) = Inr allSubscriptions"
  shows "fst (migrationCheck env s)
      = Inr (if length (filter (\<lambda>sb. sub_stream sb = es_id existingStream) allSubscriptions) = 0
             then False
             else (case collect_events env
                          (packSubscriptionName env (Some (instancePath s))
                             BASE_SUBSCRIPTION_NAME tokenCreateEvent None)
                          (filter (\<lambda>sb. sub_stream sb = es_id existingStream) allSubscriptions)
                          [] of
                     None \<Rightarrow> True
                   | Some found \<Rightarrow> check_events found))"
  using assms
  by (simp add: migrationCheck_def adopted_stream_def issue_def Let_def split: option.splits)

text \<open>
  Claim C5, as amended. Suppose the directory lists the streams and the subscriptions and
  the check adopts a stream. Take the names of the subscriptions of that stream other than
  the base subscription. The check returns \<open>True\<close> when one of them is not decodable;
  otherwise it groups them by pool key (the name packed again with the event left empty:
  instance path, pool locator and pool data) and returns \<open>True\<close> exactly when the events of
  some group are not, as a multiset, the four required events: the order is ignored, the
  multiplicity is not, so that a group passes only with one subscription for each required
  event and no other.
\<close>

theorem migrationCheck_groups:
  assumes "es_getStreams env (calls s @ [GetStreams]) = Inr streams"
    and "adopted_stream env s streams = Some existingStream"
    and "es_getSubscriptions env (calls s @ [GetStreams, GetSubscriptions]) = Inr allSubscriptions"
  shows "fst (migrationCheck env s)
     = Inr ((\<exists>n \<in> set (pool_subscription_names env s (es_id existingStream) allSubscriptions).
               \<not> decodable env n)
            \<or> (\<exists>key \<in> set (List.map_filter (pool_key env)
                  (pool_subscription_names env s (es_id existingStream) allSubscriptions)).
                  mset (pool_events env
                          (pool_subscription_names env s (es_id existingStream) allSubscriptions)
                          key)
                    \<noteq> mset ALL_SUBSCRIBED_EVENTS))"
proof -
  let ?subs = "filter (\<lambda>sb. sub_stream sb = es_id existingStream) allSubscriptions"
  let ?base = "packSubscriptionName env (Some (instancePath s)) BASE_SUBSCRIPTION_NAME
                 tokenCreateEvent None"
  have empty: "(case collect_events env ?base ?subs [] of
                  None \<Rightarrow> True | Some found \<Rightarrow> check_events found) = False"
    if "length ?subs = 0"
    using that by simp
  show ?thesis
    unfolding migrationCheck_run [OF assms] pool_subscription_names_def
    using empty migration_loops [of env ?base ?subs]
    by (cases "length ?subs = 0") simp_all
qed

text \<open>
  The example of the specification: with the four events for pool \<^verbatim>\<open>F1@5\<close> (in any order)
  the check returns \<open>False\<close>; with one of them removed it returns \<open>True\<close>.
\<close>

lemmas event_names = ALL_SUBSCRIBED_EVENTS_def tokenCreateEvent_def transferSingleEvent_def
  transferBatchEvent_def approvalForAllEvent_def

lemma sample_world:
  "es_getStreams (sample_env answer streams subs) cs = Inr streams"
  "es_getSubscriptions (sample_env answer streams subs) cs = Inr subs"
  "adopted_stream (sample_env answer sample_streams subs) a_service sample_streams
     = Some \<lparr>es_id = ''es-7'', es_name = ''tok''\<rparr>"
  by (simp_all add: sample_env_def adopted_stream_def sample_streams_def a_service_def)

lemma sample_unpack_names:
  "unpackSubscriptionName (sample_env answer streams subs) ''fft:/inst:F1@5:TokenPoolCreation''
     = \<lparr>us_instancePath = Some ''/inst'', us_poolLocator = Some ''F1@5'',
        us_event = Some ''TokenPoolCreation'', us_poolData = None\<rparr>"
  "unpackSubscriptionName (sample_env answer streams subs) ''fft:/inst:F1@5:TransferSingle''
     = \<lparr>us_instancePath = Some ''/inst'', us_poolLocator = Some ''F1@5'',
        us_event = Some ''TransferSingle'', us_poolData = None\<rparr>"
  "unpackSubscriptionName (sample_env answer streams subs) ''fft:/inst:F1@5:TransferBatch''
     = \<lparr>us_instancePath = Some ''/inst'', us_poolLocator = Some ''F1@5'',
        us_event = Some ''TransferBatch'', us_poolData = None\<rparr>"
  "unpackSubscriptionName (sample_env answer streams subs) ''fft:/inst:F1@5:ApprovalForAll''
     = \<lparr>us_instancePath = Some ''/inst'', us_poolLocator = Some ''F1@5'',
        us_event = Some ''ApprovalForAll'', us_poolData = None\<rparr>"
  by (simp_all add: sample_env_def sample_unpackSubscriptionName_def)

lemma sample_pool_key:
  "packSubscriptionName (sample_env answer streams subs) (Some ''/inst'') ''F1@5'' [] None
     = ''fft:/inst:F1@5:''"
  "packSubscriptionName (sample_env answer streams subs) (Some ''/inst'') ''base''
     ''TokenPoolCreation'' None = ''fft:/inst:base:TokenPoolCreation''"
  by (simp_all add: sample_env_def sample_packSubscriptionName_def)

lemma sample_subscription_names:
  "map sub_name (pool_subscriptions ''F1@5'' events) = map (\<lambda>e. ''fft:/inst:F1@5:'' @ e) events"
  "filter (\<lambda>sb. sub_stream sb = ''es-7'') (pool_subscriptions locator events)
     = pool_subscriptions locator events"
  by (simp_all add: pool_subscriptions_def sample_packSubscriptionName_def comp_def)

lemma sample_base_name:
  "packSubscriptionName (sample_env answer streams subs) (Some (instancePath a_service))
     BASE_SUBSCRIPTION_NAME tokenCreateEvent None = ''fft:/inst:base:TokenPoolCreation''"
  by (simp add: a_service_def BASE_SUBSCRIPTION_NAME_def tokenCreateEvent_def sample_pool_key)

lemma sample_base_name':
  "packSubscriptionName (sample_env answer streams subs) (Some (instancePath a_service))
     BASE_SUBSCRIPTION_NAME ''TokenPoolCreation'' None = ''fft:/inst:base:TokenPoolCreation''"
  using sample_base_name by (simp add: tokenCreateEvent_def)

lemma sample_pool_keys:
  "pool_key (sample_env answer streams subs) ''fft:/inst:F1@5:TokenPoolCreation''
     = Some ''fft:/inst:F1@5:''"
  "pool_key (sample_env answer streams subs) ''fft:/inst:F1@5:TransferSingle''
     = Some ''fft:/inst:F1@5:''"
  "pool_key (sample_env answer streams subs) ''fft:/inst:F1@5:TransferBatch''
     = Some ''fft:/inst:F1@5:''"
  "pool_key (sample_env answer streams subs) ''fft:/inst:F1@5:ApprovalForAll''
     = Some ''fft:/inst:F1@5:''"
  by (simp_all add: pool_key_def sample_unpack_names sample_pool_key)

lemma sample_decodable:
  "decodable (sample_env answer streams subs) ''fft:/inst:F1@5:TokenPoolCreation''"
  "decodable (sample_env answer streams subs) ''fft:/inst:F1@5:TransferSingle''"
  "decodable (sample_env answer streams subs) ''fft:/inst:F1@5:TransferBatch''"
  "decodable (sample_env answer streams subs) ''fft:/inst:F1@5:ApprovalForAll''"
  by (simp_all add: decodable_def sample_unpack_names)

lemma sample_service: "calls a_service = []" "instancePath a_service = ''/inst''"
  by (simp_all add: a_service_def)

theorem migrationCheck_groups_witness:
  "fst (migrationCheck
          (sample_env (Inr JUndefined) sample_streams
             (pool_subscriptions ''base'' [tokenCreateEvent]
              @ pool_subscriptions ''F1@5'' (rev ALL_SUBSCRIBED_EVENTS)))
          a_service) = Inr False
   \<and> fst (migrationCheck
            (sample_env (Inr JUndefined) sample_streams
               (pool_subscriptions ''base'' [tokenCreateEvent]
                @ pool_subscriptions ''F1@5'' (tl ALL_SUBSCRIBED_EVENTS)))
            a_service) = Inr True"
proof -
  let ?full = "pool_subscriptions ''base'' [tokenCreateEvent]
               @ pool_subscriptions ''F1@5'' (rev ALL_SUBSCRIBED_EVENTS)"
  let ?less = "pool_subscriptions ''base'' [tokenCreateEvent]
               @ pool_subscriptions ''F1@5'' (tl ALL_SUBSCRIBED_EVENTS)"
  let ?st = "\<lparr>es_id = ''es-7'', es_name = ''tok''\<rparr>"
  have full: "pool_subscription_names (sample_env (Inr JUndefined) sample_streams ?full)
                a_service (es_id ?st) ?full
     = [''fft:/inst:F1@5:ApprovalForAll'', ''fft:/inst:F1@5:TransferBatch'',
        ''fft:/inst:F1@5:TransferSingle'', ''fft:/inst:F1@5:TokenPoolCreation'']"
    by (simp add: pool_subscription_names_def sample_base_name' pool_subscriptions_def
          sample_packSubscriptionName_def event_names)
  have less: "pool_subscription_names (sample_env (Inr JUndefined) sample_streams ?less)
                a_service (es_id ?st) ?less
     = [''fft:/inst:F1@5:TransferSingle'', ''fft:/inst:F1@5:TransferBatch'',
        ''fft:/inst:F1@5:ApprovalForAll'']"
    by (simp add: pool_subscription_names_def sample_base_name' pool_subscriptions_def
          sample_packSubscriptionName_def event_names)
  have "fst (migrationCheck (sample_env (Inr JUndefined) sample_streams ?full) a_service)
          = Inr False"
    using migrationCheck_groups [of "sample_env (Inr JUndefined) sample_streams ?full" a_service
            sample_streams ?st ?full]
    unfolding full
    by (simp add: sample_world sample_decodable sample_pool_keys pool_events_def
          sample_unpack_names event_names)
  moreover have "fst (migrationCheck (sample_env (Inr JUndefined) sample_streams ?less) a_service)
          = Inr True"
    using migrationCheck_groups [of "sample_env (Inr JUndefined) sample_streams ?less" a_service
            sample_streams ?st ?less]
    unfolding less
    by (simp add: sample_world sample_decodable sample_pool_keys pool_events_def
          sample_unpack_names event_names)
  ultimately show ?thesis by (rule conjI)
qed

text \<open>
  As stated, with the comparison ignoring multiplicity, the claim fails: a pool with the
  four required events and a second subscription for \<^verbatim>\<open>ApprovalForAll\<close> has the required
  set of events, and the check returns \<open>True\<close>, because it also compares the lengths.
\<close>

theorem migrationCheck_set_equality_counterexample:
  "set (pool_events (sample_env (Inr JUndefined) sample_streams
                       (pool_subscriptions ''F1@5'' (ALL_SUBSCRIBED_EVENTS @ [approvalForAllEvent])))
          (map sub_name (pool_subscriptions ''F1@5'' (ALL_SUBSCRIBED_EVENTS @ [approvalForAllEvent])))
          ''fft:/inst:F1@5:'')
     = set ALL_SUBSCRIBED_EVENTS
   \<and> fst (migrationCheck
            (sample_env (Inr JUndefined) sample_streams
               (pool_subscriptions ''F1@5'' (ALL_SUBSCRIBED_EVENTS @ [approvalForAllEvent])))
            a_service) = Inr True"
proof -
  let ?subs = "pool_subscriptions ''F1@5'' (ALL_SUBSCRIBED_EVENTS @ [approvalForAllEvent])"
  let ?env = "sample_env (Inr JUndefined) sample_streams ?subs"
  have names: "map sub_name ?subs
     = [''fft:/inst:F1@5:TokenPoolCreation'', ''fft:/inst:F1@5:TransferSingle'',
        ''fft:/inst:F1@5:TransferBatch'', ''fft:/inst:F1@5:ApprovalForAll'',
        ''fft:/inst:F1@5:ApprovalForAll'']"
    by (simp add: sample_subscription_names event_names)
  have events: "pool_events ?env (map sub_name ?subs) ''fft:/inst:F1@5:''
     = [''TokenPoolCreation'', ''TransferSingle'', ''TransferBatch'', ''ApprovalForAll'',
        ''ApprovalForAll'']"
    unfolding names
    by (simp add: pool_events_def sample_pool_keys sample_unpack_names)
  have a: "set (pool_events ?env (map sub_name ?subs) ''fft:/inst:F1@5:'') = set ALL_SUBSCRIBED_EVENTS"
    unfolding events by (auto simp add: event_names)
  have subs: "?subs =
     [\<lparr>sub_name = ''fft:/inst:F1@5:TokenPoolCreation'', sub_stream = ''es-7''\<rparr>,
      \<lparr>sub_name = ''fft:/inst:F1@5:TransferSingle'', sub_stream = ''es-7''\<rparr>,
      \<lparr>sub_name = ''fft:/inst:F1@5:TransferBatch'', sub_stream = ''es-7''\<rparr>,
      \<lparr>sub_name = ''fft:/inst:F1@5:ApprovalForAll'', sub_stream = ''es-7''\<rparr>,
      \<lparr>sub_name = ''fft:/inst:F1@5:ApprovalForAll'', sub_stream = ''es-7''\<rparr>]"
    by (simp add: pool_subscriptions_def sample_packSubscriptionName_def event_names)
  have found: "collect_events ?env ''fft:/inst:base:TokenPoolCreation'' ?subs []
     = Some [(''fft:/inst:F1@5:'',
              [''TokenPoolCreation'', ''TransferSingle'', ''TransferBatch'', ''ApprovalForAll'',
               ''ApprovalForAll''])]"
    unfolding subs by (simp add: sample_unpack_names sample_pool_key)
  have filtered: "filter (\<lambda>sb. sub_stream sb = ''es-7'') ?subs = ?subs"
    by (rule sample_subscription_names(2))
  have mismatch: "events_mismatch [''TokenPoolCreation'', ''TransferSingle'', ''TransferBatch'',
                                  ''ApprovalForAll'', ''ApprovalForAll'']"
    by (simp add: events_mismatch_def event_names)
  have b: "fst (migrationCheck ?env a_service) = Inr True"
    unfolding migrationCheck_run [of ?env a_service sample_streams
                "\<lparr>es_id = ''es-7'', es_name = ''tok''\<rparr>" ?subs,
                OF sample_world(1) sample_world(3) sample_world(2)]
    unfolding EventStream.simps sample_base_name filtered found
    using mismatch by (simp add: subs)
  show ?thesis using a b by (rule conjI)
qed

text \<open>
  Claim C9. A run of the migration check issues list calls only (\<^verbatim>\<open>getStreams\<close>, then
  possibly \<^verbatim>\<open>getSubscriptions\<close>): no stream or subscription is created, updated or
  deleted. Of the service it changes nothing but the cached stream, which is left as it was
  or set to the stream the check adopts.
\<close>

theorem migrationCheck_read_only:
  "\<exists>ext st. snd (migrationCheck env s) = s\<lparr>stream := st, calls := calls s @ ext\<rparr>
       \<and> list_all is_list_call ext
       \<and> (st = stream s
            \<or> (\<exists>streams. es_getStreams env (calls s @ [GetStreams]) = Inr streams
                  \<and> st = adopted_stream env s streams \<and> st \<noteq> None))"
proof (cases "es_getStreams env (calls s @ [GetStreams])")
  case (Inl e)
  then have "snd (migrationCheck env s) = s\<lparr>stream := stream s, calls := calls s @ [GetStreams]\<rparr>"
    by (simp add: migrationCheck_def issue_def Let_def)
  then show ?thesis by (intro exI [of _ "[GetStreams]"] exI [of _ "stream s"]) simp
next
  case (Inr streams)
  show ?thesis
  proof (cases "adopted_stream env s streams")
    case None
    then have "snd (migrationCheck env s)
                 = s\<lparr>stream := stream s, calls := calls s @ [GetStreams]\<rparr>"
      using Inr by (simp add: migrationCheck_def adopted_stream_def issue_def Let_def)
    then show ?thesis by (intro exI [of _ "[GetStreams]"] exI [of _ "stream s"]) simp
  next
    case (Some existingStream)
    then have "snd (migrationCheck env s)
                 = s\<lparr>stream := Some existingStream,
                     calls := calls s @ [GetStreams, GetSubscriptions]\<rparr>"
      using Inr
      by (simp add: migrationCheck_def adopted_stream_def issue_def Let_def
            split: sum.splits option.splits)
    then show ?thesis
      using Inr Some
      by (intro exI [of _ "[GetStreams, GetSubscriptions]"] exI [of _ "Some existingStream"])
         simp
  qed
qed

text \<open>The run against a directory that holds the stream under its old name.\<close>

theorem migrationCheck_read_only_witness:
  "\<exists>ext st.
     snd (migrationCheck (sample_env (Inr JUndefined) sample_streams
                            (pool_subscriptions ''F1@5'' ALL_SUBSCRIBED_EVENTS)) a_service)
       = a_service\<lparr>stream := st, calls := calls a_service @ ext\<rparr>
     \<and> list_all is_list_call ext
     \<and> (st = stream a_service
          \<or> (\<exists>streams.
                es_getStreams (sample_env (Inr JUndefined) sample_streams
                                 (pool_subscriptions ''F1@5'' ALL_SUBSCRIBED_EVENTS))
                  (calls a_service @ [GetStreams]) = Inr streams
                \<and> st = adopted_stream (sample_env (Inr JUndefined) sample_streams
                                          (pool_subscriptions ''F1@5'' ALL_SUBSCRIBED_EVENTS))
                          a_service streams
                \<and> st \<noteq> None))"
  by (rule migrationCheck_read_only)

section \<open>Pool activation\<close>

lemma migrationCheck_config:
  "instancePath (snd (migrationCheck env s)) = instancePath s
   \<and> baseUrl (snd (migrationCheck env s)) = baseUrl s"
  by (simp add: migrationCheck_def issue_def Let_def split: sum.splits option.splits)

lemma getStream_config:
  "instancePath (snd (getStream env s)) = instancePath s
   \<and> baseUrl (snd (getStream env s)) = baseUrl s"
proof (cases "stream s")
  case (Some st)
  then show ?thesis by (simp add: getStream_def)
next
  case None
  obtain r s1 where m: "migrationCheck env s = (r, s1)" by (cases "migrationCheck env s")
  then have "instancePath s1 = instancePath s \<and> baseUrl s1 = baseUrl s"
    using migrationCheck_config [of env s] by simp
  then show ?thesis
    using None m
    by (cases r) (simp_all add: getStream_def issue_def Let_def split: sum.splits)
qed

lemma getContractAddress_config:
  "instancePath (snd (getContractAddress env s)) = instancePath s
   \<and> baseUrl (snd (getContractAddress env s)) = baseUrl s"
  by (simp add: getContractAddress_def issue_def Let_def split: sum.splits)

lemma subscribe_all_calls:
  "calls (snd (subscribe_all env reqs s)) = calls s @ map GetOrCreateSubscription reqs"
proof (induction reqs arbitrary: s)
  case Nil
  then show ?case by simp
next
  case (Cons r reqs)
  let ?s1 = "issue (GetOrCreateSubscription r) s"
  obtain replies s2 where rest: "subscribe_all env reqs ?s1 = (replies, s2)"
    by (cases "subscribe_all env reqs ?s1")
  then have "calls s2 = calls ?s1 @ map GetOrCreateSubscription reqs"
    using Cons.IH [of ?s1] by simp
  then show ?case using rest by (simp add: issue_def Let_def)
qed

lemma subscription_requests_append:
  "subscription_requests (cs @ ds) = subscription_requests cs @ subscription_requests ds"
  by (induction cs rule: subscription_requests.induct) simp_all

lemma subscription_requests_map:
  "subscription_requests (map GetOrCreateSubscription reqs) = reqs"
  by (induction reqs) simp_all

text \<open>
  Claim C6. Suppose the stream is resolved, the ABI holds the four events and the
  \<^verbatim>\<open>create\<close> function, and the contract address is known. Then \<^verbatim>\<open>activatePool\<close> issues
  exactly four create-or-reuse calls, all of them whatever the outcome of each, for the
  events \<^verbatim>\<open>TokenPoolCreation\<close>, \<^verbatim>\<open>TransferSingle\<close>, \<^verbatim>\<open>TransferBatch\<close> and
  \<^verbatim>\<open>ApprovalForAll\<close>, on the resolved stream, each named by the subscription-name codec
  from the pool locator, its event and the pool data. The first three start from the block
  number of the pool locator, or from \<^verbatim>\<open>0\<close> when it has none; the approval subscription
  starts from \<^verbatim>\<open>0\<close> whatever the pool locator says.
\<close>

theorem activatePool_seeds:
  assumes "getStream env s = (Inr strm, s1)"
    and "find_abi env tokenCreateEvent = Some creationAbi"
    and "find_abi env tokenCreateFunctionName = Some createAbi"
    and "find_abi env transferSingleEvent = Some singleAbi"
    and "find_abi env transferBatchEvent = Some batchAbi"
    and "find_abi env approvalForAllEvent = Some approvalAbi"
    and "getContractAddress env s1 = (Inr address, s2)"
  shows "\<exists>result s3 reqs.
           activatePool env dto s = (result, s3)
           \<and> calls s3 = calls s2 @ map GetOrCreateSubscription reqs
           \<and> map sr_event reqs = ALL_SUBSCRIBED_EVENTS
           \<and> map sr_name reqs
               = map (\<lambda>event. packSubscriptionName env (Some (instancePath s))
                                (pa_poolLocator dto) event (pa_poolData dto))
                   ALL_SUBSCRIBED_EVENTS
           \<and> map sr_fromBlock reqs
               = (let fromBlock = (case pl_blockNumber (unpackPoolLocator env (pa_poolLocator dto)) of
                                     None \<Rightarrow> ''0'' | Some b \<Rightarrow> b)
                  in [fromBlock, fromBlock, fromBlock, ''0''])
           \<and> (\<forall>r \<in> set reqs. sr_streamId r = es_id strm \<and> sr_contractAddress r = address)"
proof -
  have path: "instancePath s2 = instancePath s"
    using getStream_config [of env s] getContractAddress_config [of env s1] assms(1,7) by simp
  let ?fromBlock = "case pl_blockNumber (unpackPoolLocator env (pa_poolLocator dto)) of
                      None \<Rightarrow> ''0'' | Some b \<Rightarrow> b"
  let ?name = "\<lambda>event. packSubscriptionName env (Some (instancePath s2))
                          (pa_poolLocator dto) event (pa_poolData dto)"
  let ?transfers = "filter (\<lambda>m. name_includes ''mint'' m \<or> name_includes ''transfer'' m
                              \<or> name_includes ''burn'' m) (abi env)"
  let ?approvals = "filter (name_includes ''approval'') (abi env)"
  let ?reqs =
    "[\<lparr>sr_baseUrl = baseUrl s2, sr_eventAbi = creationAbi, sr_streamId = es_id strm,
       sr_event = tokenCreateEvent, sr_name = ?name tokenCreateEvent,
       sr_contractAddress = address, sr_methods = [createAbi], sr_fromBlock = ?fromBlock\<rparr>,
      \<lparr>sr_baseUrl = baseUrl s2, sr_eventAbi = singleAbi, sr_streamId = es_id strm,
       sr_event = transferSingleEvent, sr_name = ?name transferSingleEvent,
       sr_contractAddress = address, sr_methods = ?transfers, sr_fromBlock = ?fromBlock\<rparr>,
      \<lparr>sr_baseUrl = baseUrl s2, sr_eventAbi = batchAbi, sr_streamId = es_id strm,
       sr_event = transferBatchEvent, sr_name = ?name transferBatchEvent,
       sr_contractAddress = address, sr_methods = ?transfers, sr_fromBlock = ?fromBlock\<rparr>,
      \<lparr>sr_baseUrl = baseUrl s2, sr_eventAbi = approvalAbi, sr_streamId = es_id strm,
       sr_event = approvalForAllEvent, sr_name = ?name approvalForAllEvent,
       sr_contractAddress = address, sr_methods = ?approvals, sr_fromBlock = ''0''\<rparr>]"
  obtain replies s3 where sub: "subscribe_all env ?reqs s2 = (replies, s3)"
    by (cases "subscribe_all env ?reqs s2")
  have run: "activatePool env dto s
               = ((case promise_all replies of Inl e \<Rightarrow> Inl e | Inr subs \<Rightarrow> Inr ()), s3)"
    using assms sub
    by (simp add: activatePool_def Let_def del: subscribe_all.simps split: sum.splits)
  have trace: "calls s3 = calls s2 @ map GetOrCreateSubscription ?reqs"
    using subscribe_all_calls [of env ?reqs s2] sub by simp
  show ?thesis
    apply (rule exI [of _ "case promise_all replies of Inl e \<Rightarrow> Inl e | Inr subs \<Rightarrow> Inr ()"])
    apply (rule exI [of _ s3])
    apply (rule exI [of _ ?reqs])
    using run trace path
    apply (simp add: ALL_SUBSCRIBED_EVENTS_def Let_def)
    done
qed

text \<open>The activation of the pool of locator \<^verbatim>\<open>F1@5\<close>: blocks 5, 5, 5 and 0.\<close>

lemma sample_getStream:
  "getStream (sample_env answer [] subs) a_service
     = (Inr \<lparr>es_id = ''es-1'', es_name = ''tok:/inst''\<rparr>,
        a_service\<lparr>stream := Some \<lparr>es_id = ''es-1'', es_name = ''tok:/inst''\<rparr>,
                  calls := [GetStreams, CreateOrUpdateStream ''tok:/inst'' ''tok:/inst'']\<rparr>)"
  by (simp add: getStream_def migrationCheck_def issue_def sample_env_def a_service_def Let_def)

lemma sample_getContractAddress:
  "getContractAddress (sample_env answer streams subs)
     (a_service\<lparr>stream := st, calls := cs\<rparr>)
     = (Inr ''0xc0ffee'', a_service\<lparr>stream := st, calls := cs\<rparr>)"
  by (simp add: getContractAddress_def a_service_def)

lemma sample_find_abi:
  "find_abi (sample_env answer streams subs) tokenCreateEvent
     = Some \<lparr>abi_name = Some ''TokenPoolCreation'', abi_type = ''event''\<rparr>"
  "find_abi (sample_env answer streams subs) tokenCreateFunctionName
     = Some \<lparr>abi_name = Some ''create'', abi_type = ''function''\<rparr>"
  "find_abi (sample_env answer streams subs) transferSingleEvent
     = Some \<lparr>abi_name = Some ''TransferSingle'', abi_type = ''event''\<rparr>"
  "find_abi (sample_env answer streams subs) transferBatchEvent
     = Some \<lparr>abi_name = Some ''TransferBatch'', abi_type = ''event''\<rparr>"
  "find_abi (sample_env answer streams subs) approvalForAllEvent
     = Some \<lparr>abi_name = Some ''ApprovalForAll'', abi_type = ''event''\<rparr>"
  by (simp_all add: find_abi_def sample_env_def sample_abi_def event_names
        tokenCreateFunctionName_def)

lemma sample_locator_block:
  "pl_blockNumber (unpackPoolLocator (sample_env answer streams subs) ''F1@5'') = Some ''5''"
  by (simp add: sample_env_def sample_unpackPoolLocator_def)

theorem activatePool_seeds_witness:
  "map sr_fromBlock
     (subscription_requests
        (calls (snd (activatePool (sample_env (Inr JUndefined) [] [])
                       \<lparr>pa_poolLocator = ''F1@5'', pa_poolData = None\<rparr> a_service))))
     = [''5'', ''5'', ''5'', ''0'']
   \<and> map sr_event
       (subscription_requests
          (calls (snd (activatePool (sample_env (Inr JUndefined) [] [])
                         \<lparr>pa_poolLocator = ''F1@5'', pa_poolData = None\<rparr> a_service))))
     = ALL_SUBSCRIBED_EVENTS"
proof -
  let ?env = "sample_env (Inr JUndefined) [] []"
  let ?dto = "\<lparr>pa_poolLocator = ''F1@5'', pa_poolData = None\<rparr>"
  let ?s1 = "a_service\<lparr>stream := Some \<lparr>es_id = ''es-1'', es_name = ''tok:/inst''\<rparr>,
                       calls := [GetStreams, CreateOrUpdateStream ''tok:/inst'' ''tok:/inst'']\<rparr>"
  obtain result s3 reqs where run: "activatePool ?env ?dto a_service = (result, s3)"
    and trace: "calls s3 = calls ?s1 @ map GetOrCreateSubscription reqs"
    and events: "map sr_event reqs = ALL_SUBSCRIBED_EVENTS"
    and blocks: "map sr_fromBlock reqs
                   = (let fromBlock = (case pl_blockNumber (unpackPoolLocator ?env (pa_poolLocator ?dto)) of
                                         None \<Rightarrow> ''0'' | Some b \<Rightarrow> b)
                      in [fromBlock, fromBlock, fromBlock, ''0''])"
    using activatePool_seeds [OF sample_getStream sample_find_abi sample_getContractAddress,
            of "Inr JUndefined" "[]" ?dto]
    by blast
  have "subscription_requests (calls s3) = reqs"
    unfolding trace by (simp add: subscription_requests_append subscription_requests_map)
  then show ?thesis
    using run events blocks by (simp add: sample_locator_block Let_def)
qed

section \<open>The support flag\<close>

lemma queryBaseUri_flag:
  "supportsCustomUri (snd (queryBaseUri env s)) = supportsCustomUri s"
  using query_frame [of env "find_abi env ''baseTokenUri''" "[CUSTOM_URI_IID]" s]
  by (auto simp add: queryBaseUri_def split: prod.splits sum.splits)

lemma getTokenUri_flag:
  "supportsCustomUri (snd (getTokenUri env tokenId s)) = supportsCustomUri s"
  using query_frame [of env "find_abi env ''uri''" "[tokenId]" s]
  by (auto simp add: getTokenUri_def split: prod.splits sum.splits js_value.splits)

lemma balance_flag:
  "supportsCustomUri (snd (balance env dto s)) = supportsCustomUri s"
  using query_frame [of env "find_abi env ''balanceOf''" _ s]
  by (auto simp add: balance_def Let_def split: sum.splits)

lemma migrationCheck_flag:
  "supportsCustomUri (snd (migrationCheck env s)) = supportsCustomUri s"
  by (simp add: migrationCheck_def issue_def Let_def split: sum.splits option.splits)

lemma getStream_flag:
  "supportsCustomUri (snd (getStream env s)) = supportsCustomUri s"
proof (cases "stream s")
  case (Some st)
  then show ?thesis by (simp add: getStream_def)
next
  case None
  obtain r s1 where m: "migrationCheck env s = (r, s1)" by (cases "migrationCheck env s")
  then have "supportsCustomUri s1 = supportsCustomUri s"
    using migrationCheck_flag [of env s] by simp
  then show ?thesis
    using None m
    by (cases r) (simp_all add: getStream_def issue_def Let_def split: sum.splits)
qed

lemma subscribe_all_flag:
  "supportsCustomUri (snd (subscribe_all env reqs s)) = supportsCustomUri s"
proof (induction reqs arbitrary: s)
  case Nil
  then show ?case by simp
next
  case (Cons r reqs)
  let ?s1 = "issue (GetOrCreateSubscription r) s"
  obtain replies s2 where rest: "subscribe_all env reqs ?s1 = (replies, s2)"
    by (cases "subscribe_all env reqs ?s1")
  then have "supportsCustomUri s2 = supportsCustomUri ?s1"
    using Cons.IH [of ?s1] by simp
  then show ?case using rest by (simp add: issue_def Let_def)
qed

lemma activatePool_flag:
  "supportsCustomUri (snd (activatePool env dto s)) = supportsCustomUri s"
proof -
  obtain r s1 where g: "getStream env s = (r, s1)" by (cases "getStream env s")
  then have f1: "supportsCustomUri s1 = supportsCustomUri s"
    using getStream_flag [of env s] by simp
  obtain a s2 where c: "getContractAddress env s1 = (a, s2)"
    by (cases "getContractAddress env s1")
  then have f2: "supportsCustomUri s2 = supportsCustomUri s1"
    using getContractAddress_frame [of env s1] by auto
  have f3: "supportsCustomUri s3 = supportsCustomUri s2"
    if "subscribe_all env reqs s2 = (replies, s3)" for reqs replies s3
    using subscribe_all_flag [of env reqs s2] that by simp
  show ?thesis
    using g c f1 f2 f3
    by (auto simp add: activatePool_def Let_def simp del: subscribe_all.simps
          split: sum.splits option.splits prod.splits)
qed

lemma single_flag:
  "supportsCustomUri (snd (transformTransferSingleEvent env subName event eventIndex s))
     = supportsCustomUri s"
  using getTokenUri_flag [of env "td_id (ev_data event)" s]
  by (auto simp add: transformTransferSingleEvent_def Let_def
        split: sum.splits option.splits prod.splits)

lemma expand_entries_flag:
  "supportsCustomUri (snd (expand_entries env subName event is s)) = supportsCustomUri s"
proof (induction "is" arbitrary: s)
  case Nil
  then show ?case by simp
next
  case (Cons i "is")
  obtain r s1 where step:
    "transformTransferSingleEvent env subName (entry_event event i) (Some i) s = (r, s1)"
    by (cases "transformTransferSingleEvent env subName (entry_event event i) (Some i) s")
  then have f: "supportsCustomUri s1 = supportsCustomUri s"
    using single_flag [of env subName "entry_event event i" "Some i" s] by simp
  obtain r2 s2 where rest: "expand_entries env subName event is s1 = (r2, s2)"
    by (cases "expand_entries env subName event is s1")
  then have "supportsCustomUri s2 = supportsCustomUri s1" using Cons.IH [of s1] by simp
  then show ?case using step rest f by (auto split: sum.splits)
qed

lemma batch_flag:
  "supportsCustomUri (snd (transformTransferBatchEvent env subName event s))
     = supportsCustomUri s"
  using expand_entries_flag [of env subName event "[0..<length (bd_ids (ev_data event))]" s]
  by (auto simp add: transformTransferBatchEvent_def batch_loop_expand
        split: prod.splits sum.splits)

lemma creation_flag:
  assumes "supportsCustomUri s = Some b"
  shows "supportsCustomUri (snd (transformTokenPoolCreationEvent env subName event s)) = Some b"
proof -
  have i: "isCustomUriSupported env s = (b, s)"
    using assms by (simp add: isCustomUriSupported_def)
  show ?thesis
    using assms i queryBaseUri_flag [of env s]
    by (auto simp add: transformTokenPoolCreationEvent_def Let_def
          split: sum.splits option.splits prod.splits)
qed

text \<open>
  Claim C8. While the support flag is unset, a call of \<^verbatim>\<open>isCustomUriSupported\<close> invokes
  the query capability exactly once, with \<^verbatim>\<open>supportsInterface\<close> and the custom-URI
  interface id; its result is whether the query returned \<^verbatim>\<open>true\<close> (so \<open>False\<close> when the
  query failed), and the flag is set to that result. A second call right after returns the
  same result and leaves the service as it is, calls included. Once the flag is set, a call
  returns it and changes nothing, and no other operation of the service or of the listener
  changes the flag: it stays for the lifetime of the connector.
\<close>

theorem isCustomUriSupported_memoized:
  "(supportsCustomUri s = None \<longrightarrow>
      (let (b1, s1) = isCustomUriSupported env s;
           (b2, s2) = isCustomUriSupported env s1
       in b1 = (fst (query env (find_abi env ''supportsInterface'') [CUSTOM_URI_IID] s)
                  = Inr (JBool True))
          \<and> supportsCustomUri s1 = Some b1
          \<and> filter is_query_call (new_calls s s1)
              = [QueryCall (find_abi env ''supportsInterface'') [CUSTOM_URI_IID]]
          \<and> b2 = b1 \<and> s2 = s1))
   \<and> (\<forall>b. supportsCustomUri s = Some b \<longrightarrow>
          isCustomUriSupported env s = (b, s)
          \<and> supportsCustomUri (snd (query env abiMethod arguments s)) = Some b
          \<and> supportsCustomUri (snd (queryBaseUri env s)) = Some b
          \<and> supportsCustomUri (snd (getTokenUri env tokenId s)) = Some b
          \<and> supportsCustomUri (snd (balance env balanceQuery s)) = Some b
          \<and> supportsCustomUri (snd (migrationCheck env s)) = Some b
          \<and> supportsCustomUri (snd (getStream env s)) = Some b
          \<and> supportsCustomUri (snd (activatePool env activation s)) = Some b
          \<and> supportsCustomUri
               (snd (transformTokenPoolCreationEvent env subName creationEvent s)) = Some b
          \<and> supportsCustomUri
               (snd (transformTransferSingleEvent env subName transferEvent eventIndex s))
               = Some b
          \<and> supportsCustomUri
               (snd (transformTransferBatchEvent env subName batchEvent s)) = Some b)"
proof -
  let ?q = "query env (find_abi env ''supportsInterface'') [CUSTOM_URI_IID] s"
  obtain r sq where q: "?q = (r, sq)" by (cases ?q)
  obtain ext where ext:
    "calls sq = calls s @ QueryCall (find_abi env ''supportsInterface'') [CUSTOM_URI_IID] # ext"
    "filter is_query_call ext = []"
    using query_frame [of env "find_abi env ''supportsInterface''" "[CUSTOM_URI_IID]" s] q
    by auto
  have first: "isCustomUriSupported env s
                 = (r = Inr (JBool True), sq\<lparr>supportsCustomUri := Some (r = Inr (JBool True))\<rparr>)"
    if "supportsCustomUri s = None"
    using that q by (cases r) (auto simp add: isCustomUriSupported_def)
  have calls1: "new_calls s (sq\<lparr>supportsCustomUri := Some (r = Inr (JBool True))\<rparr>)
                  = QueryCall (find_abi env ''supportsInterface'') [CUSTOM_URI_IID] # ext"
    using ext(1) by (simp add: new_calls_append)
  have cached: "isCustomUriSupported env t = (b, t)" if "supportsCustomUri t = Some b" for t b
    using that by (simp add: isCustomUriSupported_def)
  have kept: "supportsCustomUri (snd (query env abiMethod arguments s)) = supportsCustomUri s"
    using query_frame [of env abiMethod arguments s] by auto
  have part1: "supportsCustomUri s = None \<longrightarrow>
      (let (b1, s1) = isCustomUriSupported env s;
           (b2, s2) = isCustomUriSupported env s1
       in b1 = (fst (query env (find_abi env ''supportsInterface'') [CUSTOM_URI_IID] s)
                  = Inr (JBool True))
          \<and> supportsCustomUri s1 = Some b1
          \<and> filter is_query_call (new_calls s s1)
              = [QueryCall (find_abi env ''supportsInterface'') [CUSTOM_URI_IID]]
          \<and> b2 = b1 \<and> s2 = s1)"
    using first calls1 ext(2) q cached
    by (simp add: Let_def)
  show ?thesis
    using part1 cached [of s] kept queryBaseUri_flag [of env s]
      getTokenUri_flag [of env tokenId s] balance_flag [of env balanceQuery s]
      migrationCheck_flag [of env s] getStream_flag [of env s]
      activatePool_flag [of env activation s]
      creation_flag [of s _ env subName creationEvent]
      single_flag [of env subName transferEvent eventIndex s]
      batch_flag [of env subName batchEvent s]
    by simp
qed

text \<open>
  The example of the specification: two probes in a row against a contract whose query
  fails. Both return \<open>False\<close>, and the capability was invoked once.
\<close>

theorem isCustomUriSupported_memoized_witness:
  "(let (b1, s1) = isCustomUriSupported (sample_env (Inl (AxiosError ''boom'')) [] []) a_service;
        (b2, s2) = isCustomUriSupported (sample_env (Inl (AxiosError ''boom'')) [] []) s1
    in b1 = False \<and> b2 = False
       \<and> filter is_query_call (new_calls a_service s2)
           = [QueryCall (find_abi (sample_env (Inl (AxiosError ''boom'')) [] [])
                           ''supportsInterface'') [CUSTOM_URI_IID]])"
  using isCustomUriSupported_memoized [of a_service "sample_env (Inl (AxiosError ''boom'')) [] []"]
  by (simp add: a_service_sel sample_query_fails Let_def split: prod.splits)

end
